theory Spec2Isabelle
  imports Main "HOL-Library.Word" "HOL-Library.List_Lexorder" "HOL-Library.Multiset"
begin

section \<open>Data model\<close>

text \<open>
  A Python \<open>str\<close> is a sequence of Unicode code points, a \<open>bytes\<close> value a sequence of
  octets.  A naive \<open>datetime\<close> is modelled by its position on the (totally ordered)
  microsecond time line.
\<close>

type_synonym pystr = "nat list"
type_synonym pybytes = "8 word list"
type_synonym datetime = int

definition str :: "string \<Rightarrow> pystr" where
  "str s = map of_char s"

text \<open>The dictionaries appended to \<open>messages\<close> in \<open>get_messages_for_conversation\<close>.\<close>

record message =
  message_id :: int
  m_text :: pystr
  m_date :: datetime
  m_is_from_me :: bool
  m_sender_id :: "pystr option"
  phone_number :: "pystr option"

text \<open>
  The dictionary \<open>current_turn\<close> of \<open>group_messages_into_turns\<close>; the key \<open>'text'\<close> is
  added when the turn is closed, which is the record extension \<open>turn\<close>.
\<close>

record current_turn =
  sender_id :: "pystr option"
  is_from_me :: bool
  messages :: "pystr list"
  start_time :: datetime
  end_time :: datetime

record turn = current_turn +
  t_text :: pystr

section \<open>Turn segmentation: \<open>group_messages_into_turns\<close>\<close>

text \<open>\<open>sep.join(xs)\<close>\<close>

fun join :: "pystr \<Rightarrow> pystr list \<Rightarrow> pystr" where
  "join sep [] = []"
| "join sep [x] = x"
| "join sep (x # y # ys) = x @ sep @ join sep (y # ys)"

text \<open>The dictionary literal that seeds an accumulator from one message.\<close>

definition new_turn :: "message \<Rightarrow> current_turn" where
  "new_turn m = \<lparr>sender_id = m_sender_id m, is_from_me = m_is_from_me m,
     messages = [m_text m], start_time = m_date m, end_time = m_date m\<rparr>"

text \<open>\<open>current_turn['text'] = ' '.join(current_turn['messages'])\<close>\<close>

definition close_turn :: "current_turn \<Rightarrow> turn" where
  "close_turn c = \<lparr>sender_id = sender_id c, is_from_me = is_from_me c,
     messages = messages c, start_time = start_time c, end_time = end_time c,
     t_text = join (str '' '') (messages c)\<rparr>"

text \<open>
  The \<open>for message in messages[1:]\<close> loop, with the two mutable variables \<open>current_turn\<close>
  and \<open>turns\<close> passed along; at the end of the list the last turn is closed and appended.
\<close>

fun turns_loop :: "current_turn \<Rightarrow> turn list \<Rightarrow> message list \<Rightarrow> turn list" where
  "turns_loop cur turns [] = turns @ [close_turn cur]"
| "turns_loop cur turns (m # ms) =
     (if m_sender_id m = sender_id cur \<and> m_is_from_me m = is_from_me cur
      then turns_loop (cur\<lparr>messages := messages cur @ [m_text m], end_time := m_date m\<rparr>) turns ms
      else turns_loop (new_turn m) (turns @ [close_turn cur]) ms)"

definition group_messages_into_turns :: "message list \<Rightarrow> turn list" where
  "group_messages_into_turns msgs =
     (case msgs of [] \<Rightarrow> [] | m # ms \<Rightarrow> turns_loop (new_turn m) [] ms)"

section \<open>Library functions on text\<close>

text \<open>
  \<open>str.isspace\<close> on one character: the white-space code points of the Unicode database
  (the list of CPython's \<open>_PyUnicode_IsWhitespace\<close>).
\<close>

definition isspace :: "nat \<Rightarrow> bool" where
  "isspace c = ((0x09 \<le> c \<and> c \<le> 0x0D) \<or> (0x1C \<le> c \<and> c \<le> 0x20) \<or> c = 0x85 \<or> c = 0xA0
     \<or> c = 0x1680 \<or> (0x2000 \<le> c \<and> c \<le> 0x200A) \<or> c = 0x2028 \<or> c = 0x2029
     \<or> c = 0x202F \<or> c = 0x205F \<or> c = 0x3000)"

text \<open>\<open>s.strip()\<close>: leading and trailing white space removed.\<close>

definition strip :: "pystr \<Rightarrow> pystr" where
  "strip s = rev (dropWhile isspace (rev (dropWhile isspace s)))"

text \<open>\<open>s.split(sep)\<close> for a one-character separator: never empty, keeps empty fields.\<close>

fun split :: "nat \<Rightarrow> pystr \<Rightarrow> pystr list" where
  "split sep [] = [[]]"
| "split sep (c # cs) =
     (if c = sep then [] # split sep cs
      else (case split sep cs of [] \<Rightarrow> [[c]] | p # ps \<Rightarrow> (c # p) # ps))"

text \<open>
  \<open>data.decode('utf-8', errors='ignore')\<close>.  \<open>utf8_step\<close> reads one well-formed sequence
  at the head of the input and gives its code point and its length; where the head is
  not the start of a well-formed sequence, the decoder drops one byte and goes on (the
  bytes of a broken sequence that follow its first byte are continuation bytes, which
  are dropped in turn).
\<close>

definition is_cont :: "8 word \<Rightarrow> bool" where
  "is_cont b = (0x80 \<le> b \<and> b \<le> 0xBF)"

definition cont_bits :: "8 word \<Rightarrow> nat" where
  "cont_bits b = unat b mod 64"

fun utf8_step :: "pybytes \<Rightarrow> (nat \<times> nat) option" where
  "utf8_step [] = None"
| "utf8_step (b # bs) =
     (if b < 0x80 then Some (unat b, 0)
      else if 0xC2 \<le> b \<and> b \<le> 0xDF then
        (case bs of
           c1 # _ \<Rightarrow> if is_cont c1 then Some ((unat b mod 32) * 64 + cont_bits c1, 1) else None
         | _ \<Rightarrow> None)
      else if 0xE0 \<le> b \<and> b \<le> 0xEF then
        (case bs of
           c1 # c2 # _ \<Rightarrow>
             if is_cont c1 \<and> is_cont c2 \<and> (b = 0xE0 \<longrightarrow> 0xA0 \<le> c1) \<and> (b = 0xED \<longrightarrow> c1 \<le> 0x9F)
             then Some ((unat b mod 16) * 4096 + cont_bits c1 * 64 + cont_bits c2, 2) else None
         | _ \<Rightarrow> None)
      else if 0xF0 \<le> b \<and> b \<le> 0xF4 then
        (case bs of
           c1 # c2 # c3 # _ \<Rightarrow>
             if is_cont c1 \<and> is_cont c2 \<and> is_cont c3
                \<and> (b = 0xF0 \<longrightarrow> 0x90 \<le> c1) \<and> (b = 0xF4 \<longrightarrow> c1 \<le> 0x8F)
             then Some ((unat b mod 8) * 262144 + cont_bits c1 * 4096 + cont_bits c2 * 64
                          + cont_bits c3, 3)
             else None
         | _ \<Rightarrow> None)
      else None)"

function utf8_decode_ignore :: "pybytes \<Rightarrow> pystr" where
  "utf8_decode_ignore [] = []"
| "utf8_decode_ignore (b # bs) =
     (case utf8_step (b # bs) of
        None \<Rightarrow> utf8_decode_ignore bs
      | Some (cp, n) \<Rightarrow> cp # utf8_decode_ignore (drop n bs))"
  by pat_completeness auto
termination
  by (relation "measure length") auto

section \<open>The platform\<close>

text \<open>
  What the module takes from its runtime and cannot be read off its source: whether the
  import of \<open>Foundation\<close> succeeded, what the two unarchivers do with a blob, the Unicode
  tables behind \<open>str.isprintable\<close> and \<open>re.IGNORECASE\<close>, the conversion of the C library
  behind \<open>datetime.fromtimestamp\<close>, and the clock.
\<close>

text \<open>
  The outcome of one \<open>try\<close> block of the archive decoders: an exception was raised, the
  block fell through (no object, or an object without \<open>string\<close>), or the block returned
  \<open>str(decoded_object.string())\<close>.
\<close>

datatype unarchive_outcome = Raised | Fell_through | Returned pystr

datatype py_exception = OSError | ValueError | OverflowError | OtherException

record platform =
  PYOBJC_AVAILABLE :: bool
  keyed_unarchiver :: "pybytes \<Rightarrow> unarchive_outcome"
  legacy_unarchiver :: "pybytes \<Rightarrow> unarchive_outcome"
  isprintable :: "nat \<Rightarrow> bool"
  ignorecase :: "nat \<Rightarrow> nat \<Rightarrow> bool"
  fromtimestamp :: "int \<Rightarrow> py_exception + datetime"
  clock :: "nat \<Rightarrow> datetime"

text \<open>
  \<open>ignorecase P p c\<close>: under \<open>re.IGNORECASE\<close> the pattern character \<open>p\<close> matches the text
  character \<open>c\<close>.  \<open>fromtimestamp P t\<close>: the value or the exception of
  \<open>datetime.fromtimestamp((t / 1_000_000_000) + 978307200)\<close>.  \<open>clock P i\<close>: what
  \<open>datetime.now()\<close> returns while row \<open>i\<close> of a query result is processed.
\<close>

section \<open>Text extraction\<close>

text \<open>Step 3 of \<open>decode_attributed_body\<close>, the fallback to raw UTF-8.\<close>

definition raw_utf8_fallback :: "platform \<Rightarrow> pybytes \<Rightarrow> pystr option" where
  "raw_utf8_fallback P data =
     (let text = strip (utf8_decode_ignore data);
          clean_text = filter (isprintable P) text
      in if length clean_text > 2 then Some clean_text else None)"

definition decode_attributed_body :: "platform \<Rightarrow> pybytes \<Rightarrow> pystr option" where
  "decode_attributed_body P data =
     (if data = [] then None
      else if \<not> PYOBJC_AVAILABLE P then Some (strip (utf8_decode_ignore data))
      else (case keyed_unarchiver P data of
              Returned s \<Rightarrow> Some s
            | _ \<Rightarrow> (case legacy_unarchiver P data of
                      Returned s \<Rightarrow> Some s
                    | _ \<Rightarrow> raw_utf8_fallback P data)))"

definition extract_message_text :: "platform \<Rightarrow> pystr option \<Rightarrow> pybytes option \<Rightarrow> pystr option" where
  "extract_message_text P text attributed_body =
     (if text \<noteq> None \<and> the text \<noteq> [] \<and> strip (the text) \<noteq> [] then Some (strip (the text))
      else if attributed_body \<noteq> None \<and> the attributed_body \<noteq> []
           then decode_attributed_body P (the attributed_body)
      else None)"

section \<open>Junk filter: \<open>is_junk_message\<close>\<close>

text \<open>
  The regular expressions of \<open>is_junk_message\<close>, each tried with \<open>re.match\<close> (anchored at
  the start of the text) and \<open>re.IGNORECASE\<close>.  \<open>match_literal\<close> matches a literal at the
  start of the text; \<open>at_end\<close> is \<open>$\<close>, which holds at the end of the text and just before
  a line feed that ends it; \<open>.\<close> matches every character but the line feed.
\<close>

definition match_literal :: "platform \<Rightarrow> pystr \<Rightarrow> pystr \<Rightarrow> bool" where
  "match_literal P lit text =
     (length lit \<le> length text \<and> list_all2 (ignorecase P) lit (take (length lit) text))"

definition at_end :: "pystr \<Rightarrow> bool" where
  "at_end rest = (rest = [] \<or> rest = [0x0A])"

definition tapback_verbs :: "pystr list" where
  "tapback_verbs = [str ''Liked'', str ''Loved'', str ''Laughed at'', str ''Disliked'',
     str ''Emphasized'', str ''Questioned'']"

text \<open>\<open>^(Liked|Loved|Laughed at|Disliked|Emphasized|Questioned)\<close>\<close>

definition tapback_pattern_1 :: "platform \<Rightarrow> pystr \<Rightarrow> bool" where
  "tapback_pattern_1 P text = list_ex (\<lambda>verb. match_literal P verb text) tapback_verbs"

text \<open>
  \<open>.*"$\<close> on the rest of the text: some quote character of the rest is followed by the
  end, and no line feed comes before it.
\<close>

definition quoted_tail :: "platform \<Rightarrow> pystr \<Rightarrow> bool" where
  "quoted_tail P rest =
     list_ex (\<lambda>i. ignorecase P 0x22 (rest ! i) \<and> at_end (drop (Suc i) rest)
                   \<and> 0x0A \<notin> set (take i rest)) [0..<length rest]"

text \<open>\<open>^(Liked|Loved|Laughed at|Disliked|Emphasized|Questioned) ".*"$\<close>\<close>

definition tapback_pattern_2 :: "platform \<Rightarrow> pystr \<Rightarrow> bool" where
  "tapback_pattern_2 P text =
     list_ex (\<lambda>verb. match_literal P (verb @ [0x20, 0x22]) text
                      \<and> quoted_tail P (drop (length verb + 2) text)) tapback_verbs"

definition attachment_tokens :: "pystr list" where
  "attachment_tokens = [str ''[IMAGE]'', str ''[URL]'', str ''[VIDEO]'', str ''[AUDIO]'',
     str ''[FILE]'']"

text \<open>\<open>^\[IMAGE\]$\<close> and its four siblings.\<close>

definition attachment_pattern :: "platform \<Rightarrow> pystr \<Rightarrow> pystr \<Rightarrow> bool" where
  "attachment_pattern P token text =
     (match_literal P token text \<and> at_end (drop (length token) text))"

definition is_junk_message :: "platform \<Rightarrow> pystr option \<Rightarrow> bool" where
  "is_junk_message P text =
     (if text = None \<or> the text = [] then True
      else if list_ex (\<lambda>pattern. pattern P (the text)) [tapback_pattern_1, tapback_pattern_2]
        then True
      else if list_ex (\<lambda>token. attachment_pattern P token (the text)) attachment_tokens
        then True
      else if length (strip (the text)) < 2 then True
      else False)"

section \<open>Timestamps: \<open>convert_messages_timestamp\<close>\<close>

text \<open>
  \<open>now\<close> is the reading of the clock at the call.  An exception other than \<open>OSError\<close> and
  \<open>ValueError\<close> is not caught and leaves the function.
\<close>

definition convert_messages_timestamp :: "platform \<Rightarrow> datetime \<Rightarrow> int \<Rightarrow> py_exception + datetime" where
  "convert_messages_timestamp P now timestamp =
     (case fromtimestamp P timestamp of
        Inr d \<Rightarrow> Inr d
      | Inl e \<Rightarrow> if e = OSError \<or> e = ValueError then Inr now else Inl e)"

section \<open>The store\<close>

text \<open>One row of the message query.\<close>

record message_row =
  r_message_id :: int
  r_text :: "pystr option"
  r_attributedBody :: "pybytes option"
  r_date :: int
  r_is_from_me :: int
  r_handle_id :: "pystr option"
  r_phone_number :: "pystr option"

text \<open>
  The store answers the two queries of the module: \<open>chat_rows\<close> is the result of the
  query of \<open>get_all_conversations\<close> (chat id and the comma-joined handles of the chat),
  \<open>message_rows chat_ids\<close> the result of the query of \<open>get_messages_for_conversation\<close>,
  the cutoff of the look-back window applied.  Either may raise.
\<close>

record store =
  chat_rows :: "py_exception + (int \<times> pystr option) list"
  message_rows :: "int list \<Rightarrow> py_exception + message_row list"

section \<open>Conversation grouping: \<open>get_all_conversations\<close>\<close>

text \<open>
  The dictionary \<open>conversations\<close> keeps its keys in the order of their first insertion:
  an association list with distinct keys.
\<close>

type_synonym conversations = "(pystr list \<times> int list) list"

text \<open>\<open>tuple(sorted(participants_str.split(',')))\<close>\<close>

definition participants_key :: "pystr \<Rightarrow> pystr list" where
  "participants_key participants_str = sort (split 0x2C participants_str)"

text \<open>\<open>if participants not in conversations: conversations[participants] = []\<close>\<close>

definition ensure_key :: "pystr list \<Rightarrow> conversations \<Rightarrow> conversations" where
  "ensure_key k d = (if k \<in> fst ` set d then d else d @ [(k, [])])"

text \<open>\<open>conversations[participants].append(chat_id)\<close>\<close>

definition append_chat :: "pystr list \<Rightarrow> int \<Rightarrow> conversations \<Rightarrow> conversations" where
  "append_chat k chat_id d = map (\<lambda>(k', ids). if k' = k then (k', ids @ [chat_id]) else (k', ids)) d"

fun conversations_loop :: "(int \<times> pystr option) list \<Rightarrow> conversations \<Rightarrow> conversations" where
  "conversations_loop [] conversations = conversations"
| "conversations_loop ((chat_id, participants_str) # rows) conversations =
     (if participants_str \<noteq> None \<and> the participants_str \<noteq> []
      then let participants = participants_key (the participants_str)
           in conversations_loop rows (append_chat participants chat_id (ensure_key participants conversations))
      else conversations_loop rows conversations)"

text \<open>\<open>connection\<close> is the truth value of \<open>self.connection\<close>.\<close>

definition get_all_conversations :: "bool \<Rightarrow> store \<Rightarrow> conversations" where
  "get_all_conversations connection db =
     (if \<not> connection then []
      else (case chat_rows db of
              Inl e \<Rightarrow> []
            | Inr rows \<Rightarrow> conversations_loop rows []))"

section \<open>Message merging: \<open>get_messages_for_conversation\<close>\<close>

text \<open>
  The loop over the rows; \<open>i\<close> counts the rows done.  An exception that leaves
  \<open>convert_messages_timestamp\<close> ends the loop.
\<close>

fun messages_loop :: "platform \<Rightarrow> nat \<Rightarrow> message_row list \<Rightarrow> message list \<Rightarrow> py_exception + message list" where
  "messages_loop P i [] msgs = Inr msgs"
| "messages_loop P i (row # rows) msgs =
     (let extracted_text = extract_message_text P (r_text row) (r_attributedBody row)
      in if extracted_text \<noteq> None \<and> the extracted_text \<noteq> [] \<and> \<not> is_junk_message P extracted_text
         then (case convert_messages_timestamp P (clock P i) (r_date row) of
                 Inl e \<Rightarrow> Inl e
               | Inr d \<Rightarrow> messages_loop P (Suc i) rows
                   (msgs @ [\<lparr>message_id = r_message_id row, m_text = the extracted_text,
                      m_date = d, m_is_from_me = (r_is_from_me row \<noteq> 0),
                      m_sender_id = r_handle_id row, phone_number = r_phone_number row\<rparr>]))
         else messages_loop P (Suc i) rows msgs)"

text \<open>\<open>messages.sort(key=lambda m: m['date'])\<close> is a stable sort, as \<open>sort_key\<close> is.\<close>

definition get_messages_for_conversation :: "platform \<Rightarrow> bool \<Rightarrow> store \<Rightarrow> int list \<Rightarrow> message list" where
  "get_messages_for_conversation P connection db chat_ids =
     (if \<not> connection \<or> chat_ids = [] then []
      else (case message_rows db chat_ids of
              Inl e \<Rightarrow> []
            | Inr rows \<Rightarrow>
                (case messages_loop P 0 rows [] of
                   Inl e \<Rightarrow> []
                 | Inr msgs \<Rightarrow> sort_key m_date msgs)))"

section \<open>Training pairs: \<open>create_training_examples\<close>\<close>

text \<open>The loop \<open>for i, turn in enumerate(turns)\<close>; \<open>rest\<close> is what is left to enumerate.\<close>

fun examples_loop :: "turn list \<Rightarrow> nat \<Rightarrow> turn list \<Rightarrow> (pystr \<times> pystr) list \<Rightarrow> (pystr \<times> pystr) list" where
  "examples_loop turns i [] examples = examples"
| "examples_loop turns i (turn # rest) examples =
     (if is_from_me turn
      then let input_text = (if i > 0 then t_text (turns ! (i - 1))
                             else str ''[CONVERSATION_STARTER]'');
               output_text = t_text turn
           in examples_loop turns (Suc i) rest (examples @ [(input_text, output_text)])
      else examples_loop turns (Suc i) rest examples)"

definition create_training_examples :: "turn list \<Rightarrow> (pystr \<times> pystr) list" where
  "create_training_examples turns = examples_loop turns 0 turns []"

section \<open>The pipeline: \<open>process_all_conversations\<close>\<close>

text \<open>The values of \<open>config.py\<close>.\<close>

definition MAX_TURN_GAP_SECONDS :: int where
  "MAX_TURN_GAP_SECONDS = 3000"

definition PROCESS_GROUP_CHATS :: bool where
  "PROCESS_GROUP_CHATS = False"

text \<open>
  The filter for 1-on-1 chats, with the flag as a parameter:
  \<open>{p: cids for p, cids in conversations.items() if len(p) == 1}\<close>.
\<close>

definition filter_conversations :: "bool \<Rightarrow> conversations \<Rightarrow> conversations" where
  "filter_conversations process_group_chats conversations =
     (if \<not> process_group_chats
      then filter (\<lambda>(p, cids). length p = 1) conversations
      else conversations)"

text \<open>The body of the loop over the conversations: the examples of one conversation.\<close>

definition conversation_examples :: "platform \<Rightarrow> store \<Rightarrow> int list \<Rightarrow> (pystr \<times> pystr) list" where
  "conversation_examples P db chat_ids =
     (let msgs = get_messages_for_conversation P True db chat_ids
      in if msgs = [] then []
         else create_training_examples (group_messages_into_turns msgs))"

text \<open>\<open>connected\<close>: whether \<open>connect_to_database\<close> succeeded.\<close>

definition process_all_conversations :: "platform \<Rightarrow> bool \<Rightarrow> bool \<Rightarrow> store \<Rightarrow> (pystr \<times> pystr) list" where
  "process_all_conversations P process_group_chats connected db =
     (if \<not> connected then []
      else let conversations = filter_conversations process_group_chats (get_all_conversations True db)
           in concat (map (\<lambda>(participants, chat_ids). conversation_examples P db chat_ids) conversations))"

section \<open>Notions used to state the properties\<close>

subsection \<open>Turns\<close>

definition turn_key :: "'a current_turn_scheme \<Rightarrow> pystr option \<times> bool" where
  "turn_key t = (sender_id t, is_from_me t)"

definition message_key :: "message \<Rightarrow> pystr option \<times> bool" where
  "message_key m = (m_sender_id m, m_is_from_me m)"

text \<open>\<open>chop ns xs\<close> cuts \<open>xs\<close> into consecutive blocks of the lengths \<open>ns\<close>.\<close>

fun chop :: "nat list \<Rightarrow> 'a list \<Rightarrow> 'a list list" where
  "chop [] xs = []"
| "chop (n # ns) xs = take n xs # chop ns (drop n xs)"

text \<open>The block of the input that a turn was built from.\<close>

definition blocks :: "turn list \<Rightarrow> message list \<Rightarrow> message list list" where
  "blocks ts msgs = chop (map (\<lambda>t. length (messages t)) ts) msgs"

text \<open>
  A turn covers a block of messages: its message list is the texts of the block, in
  order, and every message of the block has the turn's sender and self flag.
\<close>

definition turn_covers :: "turn \<Rightarrow> message list \<Rightarrow> bool" where
  "turn_covers t b =
     (map m_text b = messages t \<and> list_all (\<lambda>m. message_key m = turn_key t) b)"

fun neighbours_differ :: "turn list \<Rightarrow> bool" where
  "neighbours_differ (a # b # ts) = (turn_key a \<noteq> turn_key b \<and> neighbours_differ (b # ts))"
| "neighbours_differ ts = True"

text \<open>A message and a turn without their times.\<close>

definition untimed_message :: "message \<Rightarrow> int \<times> pystr \<times> bool \<times> pystr option \<times> pystr option" where
  "untimed_message m = (message_id m, m_text m, m_is_from_me m, m_sender_id m, phone_number m)"

definition untimed_turn :: "turn \<Rightarrow> pystr option \<times> bool \<times> pystr list \<times> pystr" where
  "untimed_turn t = (sender_id t, is_from_me t, messages t, t_text t)"

subsection \<open>Training pairs\<close>

text \<open>The pair of the turn at index \<open>i\<close>.\<close>

definition pair_at :: "turn list \<Rightarrow> nat \<Rightarrow> pystr \<times> pystr" where
  "pair_at turns i =
     (if i > 0 then t_text (turns ! (i - 1)) else str ''[CONVERSATION_STARTER]'', t_text (turns ! i))"

subsection \<open>A sample platform and sample data\<close>

text \<open>
  A platform for the concrete evaluations: no \<open>Foundation\<close>, the ASCII part of the
  Unicode tables, and a conversion that raises \<open>ValueError\<close> beyond the year 9999.
\<close>

definition ascii_lower :: "nat \<Rightarrow> nat" where
  "ascii_lower c = (if 0x41 \<le> c \<and> c \<le> 0x5A then c + 0x20 else c)"

definition ascii_platform :: platform where
  "ascii_platform = \<lparr>PYOBJC_AVAILABLE = False,
     keyed_unarchiver = (\<lambda>data. Raised),
     legacy_unarchiver = (\<lambda>data. Raised),
     isprintable = (\<lambda>c. 0x20 \<le> c \<and> c \<le> 0x7E),
     ignorecase = (\<lambda>p c. ascii_lower p = ascii_lower c),
     fromtimestamp = (\<lambda>t. if t div 1000000000 + 978307200 > 253402300799 then Inl ValueError
                           else Inr (t div 1000 + 978307200000000)),
     clock = (\<lambda>i. 1800000000000000)\<rparr>"

definition msg :: "int \<Rightarrow> string \<Rightarrow> datetime \<Rightarrow> bool \<Rightarrow> string \<Rightarrow> message" where
  "msg n s d me h = \<lparr>message_id = n, m_text = str s, m_date = d, m_is_from_me = me,
     m_sender_id = (if me then None else Some (str h)), phone_number = None\<rparr>"

text \<open>Scenario A of the specification: two messages of A, then one of the owner.\<close>

definition scenario_A :: "message list" where
  "scenario_A = [msg 1 ''hi'' 0 False ''A'', msg 2 ''there'' 60000000 False ''A'',
     msg 3 ''hey'' 300000000 True ''A'']"

text \<open>
  Scenario A with other times: the second message a day after the first, the third a
  millisecond after the second.
\<close>

definition scenario_A_slow :: "message list" where
  "scenario_A_slow = [msg 1 ''hi'' 0 False ''A'', msg 2 ''there'' 86400000000 False ''A'',
     msg 3 ''hey'' 86400001000 True ''A'']"

subsection \<open>Rows\<close>

text \<open>A row survives the filter of \<open>get_messages_for_conversation\<close>.\<close>

definition survives :: "platform \<Rightarrow> message_row \<Rightarrow> bool" where
  "survives P row =
     (let t = extract_message_text P (r_text row) (r_attributedBody row)
      in t \<noteq> None \<and> the t \<noteq> [] \<and> \<not> is_junk_message P t)"

text \<open>The conversion of the timestamp of a row raises an exception that is caught.\<close>

definition raises_caught :: "platform \<Rightarrow> message_row \<Rightarrow> bool" where
  "raises_caught P row =
     (fromtimestamp P (r_date row) = Inl OSError \<or> fromtimestamp P (r_date row) = Inl ValueError)"

text \<open>The conversion of the timestamp of a row raises no exception that is not caught.\<close>

definition converts :: "platform \<Rightarrow> message_row \<Rightarrow> bool" where
  "converts P row =
     (fromtimestamp P (r_date row) \<noteq> Inl OverflowError
      \<and> fromtimestamp P (r_date row) \<noteq> Inl OtherException)"

text \<open>The date that the message of row number \<open>i\<close> gets when nothing leaves the conversion.\<close>

definition date_of_row :: "platform \<Rightarrow> nat \<Rightarrow> message_row \<Rightarrow> datetime" where
  "date_of_row P i row =
     (case fromtimestamp P (r_date row) of Inr d \<Rightarrow> d | Inl e \<Rightarrow> clock P i)"

text \<open>
  The message that \<open>get_messages_for_conversation\<close> makes of row number \<open>i\<close>, and the
  messages of the rows that survive, in row order, numbered from \<open>i\<close>.
\<close>

definition row_message :: "platform \<Rightarrow> nat \<Rightarrow> message_row \<Rightarrow> message" where
  "row_message P i row =
     \<lparr>message_id = r_message_id row,
      m_text = the (extract_message_text P (r_text row) (r_attributedBody row)),
      m_date = date_of_row P i row, m_is_from_me = (r_is_from_me row \<noteq> 0),
      m_sender_id = r_handle_id row, phone_number = r_phone_number row\<rparr>"

definition kept_from :: "platform \<Rightarrow> nat \<Rightarrow> message_row list \<Rightarrow> message list" where
  "kept_from P i rows =
     map (\<lambda>(j, row). row_message P j row) (filter (\<lambda>(j, row). survives P row) (enumerate i rows))"

text \<open>The messages of the surviving rows of a query result, in row order.\<close>

definition kept_messages :: "platform \<Rightarrow> message_row list \<Rightarrow> message list" where
  "kept_messages P rows = kept_from P 0 rows"

text \<open>
  Sample rows of two chats with the same participant, not in the order of their dates:
  the third is a tapback, the date of the fourth is beyond the year 9999.
\<close>

definition loved_ok :: pystr where
  "loved_ok = str ''Loved '' @ [0x22] @ str ''ok'' @ [0x22]"

definition text_row :: "int \<Rightarrow> pystr \<Rightarrow> int \<Rightarrow> int \<Rightarrow> message_row" where
  "text_row n s d me = \<lparr>r_message_id = n, r_text = Some s, r_attributedBody = None, r_date = d,
     r_is_from_me = me, r_handle_id = Some (str ''A''), r_phone_number = None\<rparr>"

definition sample_rows :: "message_row list" where
  "sample_rows = [text_row 1 (str ''second one'') 2000000000 0, text_row 2 (str '' first one'') 1000000000 1,
     text_row 3 loved_ok 1500000000 0, text_row 4 (str ''late'') 1000000000000000000000 0]"

definition sample_store :: store where
  "sample_store = \<lparr>chat_rows = Inr [(1, Some (str ''A'')), (2, Some (str ''B,A'')), (3, Some (str ''A''))],
     message_rows = (\<lambda>chat_ids. Inr sample_rows)\<rparr>"

definition junk_store :: store where
  "junk_store = \<lparr>chat_rows = Inr [(1, Some (str ''A''))],
     message_rows = (\<lambda>chat_ids. Inr [text_row 3 loved_ok 1500000000 0])\<rparr>"

text \<open>The sample platform with \<open>Foundation\<close>, both unarchivers raising on every blob.\<close>

definition pyobjc_platform :: platform where
  "pyobjc_platform = ascii_platform\<lparr>PYOBJC_AVAILABLE := True\<rparr>"

text \<open>Sample blobs: the bytes of \<open>a\<close>, of \<open>ab\<close>, and of \<open> hi!\<close> with an invalid byte, a NUL and a line feed.\<close>

definition blob_a :: pybytes where
  "blob_a = [0x61]"

definition blob_ab :: pybytes where
  "blob_ab = [0x61, 0x62]"

definition blob_hi :: pybytes where
  "blob_hi = [0x20, 0x68, 0x69, 0x21, 0xFF, 0x00, 0x0A]"

subsection \<open>Junk\<close>

text \<open>
  The text starts with one of the reaction verbs (the quoted excerpt that may follow is
  optional, and nothing is asked of what follows the verb).
\<close>

definition reaction_shorthand :: "platform \<Rightarrow> pystr \<Rightarrow> bool" where
  "reaction_shorthand P text = list_ex (\<lambda>verb. match_literal P verb text) tapback_verbs"

text \<open>The text is one of the placeholder tokens and nothing else.\<close>

definition bare_placeholder :: "platform \<Rightarrow> pystr \<Rightarrow> bool" where
  "bare_placeholder P text = list_ex (\<lambda>token. list_all2 (ignorecase P) token text) attachment_tokens"

text \<open>The text is one of the placeholder tokens, or one of them and a line feed.\<close>

definition placeholder_line :: "platform \<Rightarrow> pystr \<Rightarrow> bool" where
  "placeholder_line P text =
     (bare_placeholder P text \<or> (text \<noteq> [] \<and> last text = 0x0A \<and> bare_placeholder P (butlast text)))"

text \<open>The four conditions of the junk filter, as the specification lists them.\<close>

definition junk_as_specified :: "platform \<Rightarrow> pystr option \<Rightarrow> bool" where
  "junk_as_specified P text =
     (text = None \<or> the text = [] \<or> reaction_shorthand P (the text)
      \<or> bare_placeholder P (the text) \<or> length (strip (the text)) < 2)"

definition image_line :: pystr where
  "image_line = str ''[IMAGE]'' @ [0x0A]"

text \<open>No message of the list has a junk text.\<close>

definition no_junk :: "platform \<Rightarrow> message list \<Rightarrow> bool" where
  "no_junk P msgs = list_all (\<lambda>m. \<not> is_junk_message P (Some (m_text m))) msgs"

text \<open>The text is not the tapback of scenario C.\<close>

definition not_loved_ok :: "pystr \<Rightarrow> bool" where
  "not_loved_ok s = (s \<noteq> loved_ok)"

subsection \<open>Conversations\<close>

text \<open>The chats of the query result whose participants have the key \<open>k\<close>, in row order.\<close>

definition chats_with_key :: "pystr list \<Rightarrow> (int \<times> pystr option) list \<Rightarrow> int list" where
  "chats_with_key k rows =
     map fst (filter (\<lambda>(chat_id, ps). ps \<noteq> None \<and> the ps \<noteq> [] \<and> participants_key (the ps) = k) rows)"

text \<open>The key has a single handle.\<close>

definition one_on_one :: "pystr list \<times> int list \<Rightarrow> bool" where
  "one_on_one c = (length (fst c) = 1)"

text \<open>
  A store with two chats of the one participant \<open>A\<close>; the second chat is joined to two
  handle rows of that participant.
\<close>

definition dup_store :: store where
  "dup_store = \<lparr>chat_rows = Inr [(1, Some (str ''A'')), (2, Some (str ''A,A''))],
     message_rows = (\<lambda>chat_ids. Inr [])\<rparr>"

section \<open>Verification\<close>

subsection \<open>Turn segmentation\<close>

lemma turns_loop_acc: "turns_loop cur turns ms = turns @ turns_loop cur [] ms"
proof (induction ms arbitrary: cur turns)
  case Nil
  show ?case by simp
next
  case (Cons m ms)
  show ?case
    using Cons.IH [of "new_turn m" "turns @ [close_turn cur]"]
          Cons.IH [of "new_turn m" "[close_turn cur]"]
          Cons.IH [of "cur\<lparr>messages := messages cur @ [m_text m], end_time := m_date m\<rparr>" turns]
    by simp
qed

lemma close_turn_simps [simp]:
  "messages (close_turn c) = messages c"
  "turn_key (close_turn c) = turn_key c"
  "t_text (close_turn c) = join (str '' '') (messages c)"
  "sender_id (close_turn c) = sender_id c"
  "is_from_me (close_turn c) = is_from_me c"
  by (simp_all add: close_turn_def turn_key_def)

lemma new_turn_simps [simp]:
  "messages (new_turn m) = [m_text m]"
  "turn_key (new_turn m) = message_key m"
  "sender_id (new_turn m) = m_sender_id m"
  "is_from_me (new_turn m) = m_is_from_me m"
  by (simp_all add: new_turn_def turn_key_def message_key_def)

text \<open>The loop without its accumulator of closed turns.\<close>

lemma turns_loop_Cons:
  "turns_loop cur [] (m # ms) =
     (if message_key m = turn_key cur
      then turns_loop (cur\<lparr>messages := messages cur @ [m_text m], end_time := m_date m\<rparr>) [] ms
      else close_turn cur # turns_loop (new_turn m) [] ms)"
  using turns_loop_acc [of "new_turn m" "[close_turn cur]" ms]
  by (simp add: message_key_def turn_key_def)

declare turns_loop.simps(2) [simp del]

lemma turns_loop_nonempty: "turns_loop cur [] ms \<noteq> []"
  by (induction ms arbitrary: cur) (simp_all add: turns_loop_Cons)

lemma turns_loop_hd_key: "turn_key (hd (turns_loop cur [] ms)) = turn_key cur"
proof (induction ms arbitrary: cur)
  case Nil
  show ?case by simp
next
  case (Cons m ms)
  show ?case
    using Cons.IH [of "cur\<lparr>messages := messages cur @ [m_text m], end_time := m_date m\<rparr>"]
    by (simp add: turns_loop_Cons turn_key_def)
qed

lemma turns_loop_messages_nonempty:
  "messages cur \<noteq> [] \<Longrightarrow> list_all (\<lambda>t. messages t \<noteq> []) (turns_loop cur [] ms)"
  by (induction ms arbitrary: cur) (simp_all add: turns_loop_Cons)

lemma turns_loop_concat:
  "concat (map messages (turns_loop cur [] ms)) = messages cur @ map m_text ms"
  by (induction ms arbitrary: cur) (simp_all add: turns_loop_Cons)

lemma neighbours_differ_Cons:
  "ts \<noteq> [] \<Longrightarrow>
   neighbours_differ (a # ts) = (turn_key a \<noteq> turn_key (hd ts) \<and> neighbours_differ ts)"
  by (cases ts) simp_all

lemma turns_loop_neighbours: "neighbours_differ (turns_loop cur [] ms)"
proof (induction ms arbitrary: cur)
  case Nil
  show ?case by simp
next
  case (Cons m ms)
  show ?case
    using Cons.IH turns_loop_hd_key [of "new_turn m" ms]
    by (auto simp add: turns_loop_Cons neighbours_differ_Cons turns_loop_nonempty)
qed

text \<open>
  \<open>pre\<close> is the part of the input that the open turn has taken in; the turns that the
  loop returns cover \<open>pre\<close> and the rest of the input, block by block.
\<close>

lemma turns_loop_covers:
  "map m_text pre = messages cur \<Longrightarrow> list_all (\<lambda>m. message_key m = turn_key cur) pre \<Longrightarrow>
   list_all2 turn_covers (turns_loop cur [] ms) (blocks (turns_loop cur [] ms) (pre @ ms))"
proof (induction ms arbitrary: cur pre)
  case Nil
  have "length (messages cur) = length pre"
    using Nil(1) by (metis length_map)
  then show ?case
    using Nil by (simp add: turn_covers_def blocks_def)
next
  case (Cons m ms)
  show ?case
  proof (cases "message_key m = turn_key cur")
    case True
    let ?cur = "cur\<lparr>messages := messages cur @ [m_text m], end_time := m_date m\<rparr>"
    have "map m_text (pre @ [m]) = messages ?cur"
      using Cons.prems by simp
    moreover have "list_all (\<lambda>x. message_key x = turn_key ?cur) (pre @ [m])"
      using Cons.prems True by (simp add: turn_key_def)
    ultimately show ?thesis
      using Cons.IH [of "pre @ [m]" ?cur] True by (simp add: turns_loop_Cons)
  next
    case False
    have len: "length (messages cur) = length pre"
      using Cons.prems(1) by (metis length_map)
    have "list_all2 turn_covers (turns_loop (new_turn m) [] ms)
            (blocks (turns_loop (new_turn m) [] ms) ([m] @ ms))"
      by (rule Cons.IH) simp_all
    moreover have "turn_covers (close_turn cur) pre"
      using Cons.prems by (simp add: turn_covers_def)
    ultimately show ?thesis
      using False len by (simp add: turns_loop_Cons blocks_def)
  qed
qed

lemma chop_concat: "sum_list ns = length xs \<Longrightarrow> concat (chop ns xs) = xs"
  by (induction ns arbitrary: xs) simp_all

text \<open>
  C1.  For a non-empty message list, \<open>group_messages_into_turns\<close> returns at least one
  turn; no turn has an empty message list; the turns cover consecutive blocks of the
  input, which together are the whole input, and every message of a block has the
  sender and self flag of its turn; neighbouring turns differ in that pair; the message
  lists of the turns, concatenated, are the texts of the input in order; the last turn
  ends with the last message.  The empty list gives no turn.
\<close>

theorem group_messages_into_turns_partition:
  "group_messages_into_turns [] = [] \<and>
   (msgs \<noteq> [] \<longrightarrow>
     (let ts = group_messages_into_turns msgs in
        ts \<noteq> [] \<and>
        list_all (\<lambda>t. messages t \<noteq> []) ts \<and>
        list_all2 turn_covers ts (blocks ts msgs) \<and>
        concat (blocks ts msgs) = msgs \<and>
        neighbours_differ ts \<and>
        concat (map messages ts) = map m_text msgs \<and>
        last (messages (last ts)) = m_text (last msgs)))"
proof -
  have empty: "group_messages_into_turns [] = []"
    by (simp add: group_messages_into_turns_def)
  moreover have "?thesis" if ne: "msgs \<noteq> []"
  proof -
    obtain m ms where msgs: "msgs = m # ms"
      using ne by (cases msgs) auto
    define ts where "ts = turns_loop (new_turn m) [] ms"
    have g: "group_messages_into_turns msgs = ts"
      by (simp add: group_messages_into_turns_def msgs ts_def)
    have 1: "ts \<noteq> []"
      unfolding ts_def by (rule turns_loop_nonempty)
    have 2: "list_all (\<lambda>t. messages t \<noteq> []) ts"
      unfolding ts_def by (rule turns_loop_messages_nonempty) simp
    have 3: "list_all2 turn_covers ts (blocks ts msgs)"
      using turns_loop_covers [of "[m]" "new_turn m" ms] by (simp add: ts_def msgs)
    have 6: "concat (map messages ts) = map m_text msgs"
      unfolding ts_def by (simp add: turns_loop_concat msgs)
    have "sum_list (map (\<lambda>t. length (messages t)) ts) = length (concat (map messages ts))"
      by (simp add: length_concat comp_def)
    then have 4: "concat (blocks ts msgs) = msgs"
      using 6 by (simp add: chop_concat blocks_def)
    have 5: "neighbours_differ ts"
      unfolding ts_def by (rule turns_loop_neighbours)
    have "messages (last ts) \<noteq> []"
      using 1 2 by (simp add: list_all_iff)
    moreover have "concat (map messages ts) = concat (map messages (butlast ts)) @ messages (last ts)"
    proof -
      have "ts = butlast ts @ [last ts]"
        using 1 by simp
      then have "map messages ts = map messages (butlast ts) @ [messages (last ts)]"
        by (metis list.simps(8,9) map_append)
      then show ?thesis by simp
    qed
    ultimately have "last (concat (map messages ts)) = last (messages (last ts))"
      by simp
    then have 7: "last (messages (last ts)) = m_text (last msgs)"
      using 6 ne by (simp add: last_map)
    show ?thesis
      using 1 2 3 4 5 6 7 g empty by (simp add: Let_def)
  qed
  ultimately show ?thesis by blast
qed

theorem group_messages_into_turns_partition_witness:
  "scenario_A \<noteq> [] \<and>
   (let ts = group_messages_into_turns scenario_A in
      ts \<noteq> [] \<and>
      list_all (\<lambda>t. messages t \<noteq> []) ts \<and>
      list_all2 turn_covers ts (blocks ts scenario_A) \<and>
      concat (blocks ts scenario_A) = scenario_A \<and>
      neighbours_differ ts \<and>
      concat (map messages ts) = map m_text scenario_A \<and>
      last (messages (last ts)) = m_text (last scenario_A)) \<and>
   map messages (group_messages_into_turns scenario_A) = [[str ''hi'', str ''there''], [str ''hey'']]"
proof -
  have ne: "scenario_A \<noteq> []"
    by (simp add: scenario_A_def)
  have "map messages (group_messages_into_turns scenario_A) = [[str ''hi'', str ''there''], [str ''hey'']]"
    by (simp add: scenario_A_def msg_def group_messages_into_turns_def turns_loop.simps(2)
      new_turn_def close_turn_def)
  then show ?thesis
    using ne group_messages_into_turns_partition [of scenario_A] by simp
qed

subsection \<open>Turns and time\<close>

lemma turns_loop_untimed:
  "sender_id c = sender_id c' \<Longrightarrow> is_from_me c = is_from_me c' \<Longrightarrow> messages c = messages c' \<Longrightarrow>
   map untimed_message a = map untimed_message b \<Longrightarrow>
   map untimed_turn (turns_loop c [] a) = map untimed_turn (turns_loop c' [] b)"
proof (induction a arbitrary: b c c')
  case Nil
  then show ?case by (simp add: untimed_turn_def)
next
  case (Cons m a)
  then obtain m' b' where b: "b = m' # b'" and m: "untimed_message m = untimed_message m'"
    and rest: "map untimed_message a = map untimed_message b'"
    by (cases b) auto
  have keys: "message_key m = message_key m'" "m_text m = m_text m'"
    using m by (simp_all add: untimed_message_def message_key_def)
  have tk: "turn_key c = turn_key c'"
    using Cons.prems by (simp add: turn_key_def)
  show ?case
  proof (cases "message_key m = turn_key c")
    case True
    have "map untimed_turn (turns_loop (c\<lparr>messages := messages c @ [m_text m], end_time := m_date m\<rparr>) [] a) =
          map untimed_turn (turns_loop (c'\<lparr>messages := messages c' @ [m_text m'], end_time := m_date m'\<rparr>) [] b')"
      by (rule Cons.IH) (use Cons.prems keys rest in simp_all)
    then show ?thesis
      using True keys tk by (simp add: b turns_loop_Cons)
  next
    case False
    have "map untimed_turn (turns_loop (new_turn m) [] a) = map untimed_turn (turns_loop (new_turn m') [] b')"
      by (rule Cons.IH) (use keys rest in \<open>simp_all add: message_key_def\<close>)
    moreover have "untimed_turn (close_turn c) = untimed_turn (close_turn c')"
      using Cons.prems by (simp add: untimed_turn_def)
    ultimately show ?thesis
      using False keys tk by (simp add: b turns_loop_Cons)
  qed
qed

text \<open>
  C9.  Two message lists that agree in everything but the times of their messages are
  cut into turns with the same senders, self flags, message lists and texts: the times
  (and so \<open>MAX_TURN_GAP_SECONDS\<close>) have no part in where a turn ends.
\<close>

theorem turns_independent_of_time:
  assumes eq: "map untimed_message a = map untimed_message b"
  shows "map untimed_turn (group_messages_into_turns a) = map untimed_turn (group_messages_into_turns b)"
proof (cases a)
  case Nil
  then have "b = []" using eq by simp
  then show ?thesis using Nil by simp
next
  case (Cons m a')
  from eq obtain m' b' where b: "b = m' # b'" and m: "untimed_message m = untimed_message m'"
    and rest: "map untimed_message a' = map untimed_message b'"
    using Cons by (cases b) auto
  have "map untimed_turn (turns_loop (new_turn m) [] a') = map untimed_turn (turns_loop (new_turn m') [] b')"
    by (rule turns_loop_untimed) (use m rest in \<open>simp_all add: untimed_message_def\<close>)
  then show ?thesis
    by (simp add: group_messages_into_turns_def Cons b)
qed

theorem turns_independent_of_time_witness:
  "map untimed_message scenario_A = map untimed_message scenario_A_slow \<and>
   map m_date scenario_A \<noteq> map m_date scenario_A_slow \<and>
   m_date (scenario_A_slow ! 1) - m_date (scenario_A_slow ! 0) > MAX_TURN_GAP_SECONDS * 1000000 \<and>
   map untimed_turn (group_messages_into_turns scenario_A) =
     map untimed_turn (group_messages_into_turns scenario_A_slow) \<and>
   map messages (group_messages_into_turns scenario_A_slow) = [[str ''hi'', str ''there''], [str ''hey'']]"
proof -
  have eq: "map untimed_message scenario_A = map untimed_message scenario_A_slow"
    by (simp add: scenario_A_def scenario_A_slow_def msg_def untimed_message_def)
  have "map m_date scenario_A \<noteq> map m_date scenario_A_slow"
    by (simp add: scenario_A_def scenario_A_slow_def msg_def)
  moreover have "m_date (scenario_A_slow ! 1) - m_date (scenario_A_slow ! 0) > MAX_TURN_GAP_SECONDS * 1000000"
    by (simp add: scenario_A_slow_def msg_def MAX_TURN_GAP_SECONDS_def)
  moreover have "map messages (group_messages_into_turns scenario_A_slow) = [[str ''hi'', str ''there''], [str ''hey'']]"
    by (simp add: scenario_A_slow_def msg_def group_messages_into_turns_def turns_loop.simps(2)
      new_turn_def close_turn_def)
  ultimately show ?thesis
    using eq turns_independent_of_time [OF eq] by simp
qed

subsection \<open>Training pairs\<close>

lemma examples_loop_eq:
  "rest = drop i turns \<Longrightarrow> i \<le> length turns \<Longrightarrow>
   examples_loop turns i rest examples =
     examples @ map (pair_at turns) (filter (\<lambda>j. is_from_me (turns ! j)) [i..<length turns])"
proof (induction rest arbitrary: i examples)
  case Nil
  then show ?case by simp
next
  case (Cons turn rest)
  have lt: "i < length turns"
    using Cons.prems by (metis drop_eq_Nil leI list.distinct(1))
  have turn: "turns ! i = turn" and rest: "rest = drop (Suc i) turns"
    using Cons.prems(1) lt by (metis Cons_nth_drop_Suc list.inject)+
  have up: "[i..<length turns] = i # [Suc i..<length turns]"
    using lt by (simp add: upt_conv_Cons)
  have IH: "\<And>ex. examples_loop turns (Suc i) rest ex =
     ex @ map (pair_at turns) (filter (\<lambda>j. is_from_me (turns ! j)) [Suc i..<length turns])"
    using Cons.IH [OF rest] lt by simp
  show ?case
    by (simp add: IH up turn pair_at_def Let_def)
qed

lemma filter_by_index:
  "filter P xs = map (nth xs) (filter (\<lambda>i. P (xs ! i)) [0..<length xs])"
proof -
  have "filter P (map (nth xs) [0..<length xs]) = map (nth xs) (filter (P \<circ> nth xs) [0..<length xs])"
    by (rule filter_map)
  then show ?thesis by (simp add: map_nth comp_def)
qed

text \<open>
  C2.  \<open>create_training_examples\<close> returns, in the order of the turns, one pair for
  each index \<open>i\<close> whose turn is from the owner: the text of the turn at \<open>i - 1\<close> (the
  string \<open>[CONVERSATION_STARTER]\<close> when \<open>i = 0\<close>) and the text of the turn at \<open>i\<close>.
  The number of pairs is the number of turns from the owner, and the outputs are the
  texts of those turns.
\<close>

theorem create_training_examples_pairs:
  "create_training_examples turns =
     map (pair_at turns) (filter (\<lambda>i. is_from_me (turns ! i)) [0..<length turns]) \<and>
   length (create_training_examples turns) = length (filter is_from_me turns) \<and>
   map snd (create_training_examples turns) = map t_text (filter is_from_me turns)"
proof -
  have eq: "create_training_examples turns =
     map (pair_at turns) (filter (\<lambda>i. is_from_me (turns ! i)) [0..<length turns])"
    by (simp add: create_training_examples_def examples_loop_eq)
  have idx: "filter is_from_me turns = map (nth turns) (filter (\<lambda>i. is_from_me (turns ! i)) [0..<length turns])"
    by (rule filter_by_index)
  have "length (create_training_examples turns) = length (filter is_from_me turns)"
    by (simp add: eq) (simp add: idx)
  moreover have "map snd (create_training_examples turns) = map t_text (filter is_from_me turns)"
    by (simp add: eq) (simp add: idx pair_at_def comp_def)
  ultimately show ?thesis using eq by simp
qed

text \<open>Scenario A gives the one pair (hi there, hey).\<close>

lemma scenario_A_examples:
  "create_training_examples (group_messages_into_turns scenario_A) = [(str ''hi there'', str ''hey'')]"
  by (simp add: scenario_A_def msg_def group_messages_into_turns_def turns_loop.simps(2)
      new_turn_def close_turn_def create_training_examples_def str_def)

subsection \<open>Message merging\<close>

lemma messages_loop_Cons:
  "messages_loop P i (row # rows) acc =
     (if survives P row
      then (case convert_messages_timestamp P (clock P i) (r_date row) of
              Inl e \<Rightarrow> Inl e
            | Inr d \<Rightarrow> messages_loop P (Suc i) rows
                (acc @ [\<lparr>message_id = r_message_id row,
                   m_text = the (extract_message_text P (r_text row) (r_attributedBody row)),
                   m_date = d, m_is_from_me = (r_is_from_me row \<noteq> 0),
                   m_sender_id = r_handle_id row, phone_number = r_phone_number row\<rparr>]))
      else messages_loop P (Suc i) rows acc)"
  unfolding messages_loop.simps survives_def Let_def by (rule refl)

declare messages_loop.simps(2) [simp del]

lemma messages_loop_none_survive:
  "list_all (\<lambda>row. \<not> survives P row) rows \<Longrightarrow> messages_loop P i rows acc = Inr acc"
  by (induction rows arbitrary: i acc) (simp_all add: messages_loop_Cons)

lemma convert_caught:
  "fromtimestamp P t = Inl OSError \<or> fromtimestamp P t = Inl ValueError \<Longrightarrow>
   convert_messages_timestamp P now t = Inr now"
  by (auto simp add: convert_messages_timestamp_def)

lemma convert_total:
  "converts P row \<Longrightarrow>
   convert_messages_timestamp P now (r_date row) =
     Inr (case fromtimestamp P (r_date row) of Inr d \<Rightarrow> d | Inl e \<Rightarrow> now)"
  by (cases "fromtimestamp P (r_date row)")
     (auto simp add: convert_messages_timestamp_def converts_def intro: py_exception.exhaust)

lemma messages_loop_total:
  "list_all (converts P) rows \<Longrightarrow>
   \<exists>msgs. messages_loop P i rows acc = Inr msgs \<and> set acc \<subseteq> set msgs \<and>
     (\<forall>j<length rows. survives P (rows ! j) \<longrightarrow>
        (\<exists>m\<in>set msgs. message_id m = r_message_id (rows ! j) \<and>
           m_date m = date_of_row P (i + j) (rows ! j)))"
proof (induction rows arbitrary: i acc)
  case Nil
  show ?case by simp
next
  case (Cons row rows)
  have conv: "converts P row" and rest: "list_all (converts P) rows"
    using Cons.prems by simp_all
  show ?case
  proof (cases "survives P row")
    case True
    define d where "d = date_of_row P i row"
    define m where "m = \<lparr>message_id = r_message_id row,
        m_text = the (extract_message_text P (r_text row) (r_attributedBody row)),
        m_date = d, m_is_from_me = (r_is_from_me row \<noteq> 0),
        m_sender_id = r_handle_id row, phone_number = r_phone_number row\<rparr>"
    have step: "messages_loop P i (row # rows) acc = messages_loop P (Suc i) rows (acc @ [m])"
      using True convert_total [OF conv, of "clock P i"]
      by (simp add: messages_loop_Cons m_def d_def date_of_row_def)
    from Cons.IH [OF rest, of "Suc i" "acc @ [m]"]
    obtain msgs where msgs: "messages_loop P (Suc i) rows (acc @ [m]) = Inr msgs"
      and sub: "set (acc @ [m]) \<subseteq> set msgs"
      and all: "\<forall>j<length rows. survives P (rows ! j) \<longrightarrow>
        (\<exists>m\<in>set msgs. message_id m = r_message_id (rows ! j) \<and>
           m_date m = date_of_row P (Suc i + j) (rows ! j))"
      by blast
    have "\<exists>m\<in>set msgs. message_id m = r_message_id ((row # rows) ! j) \<and>
           m_date m = date_of_row P (i + j) ((row # rows) ! j)"
      if "j < length (row # rows)" "survives P ((row # rows) ! j)" for j
    proof (cases j)
      case 0
      have "m \<in> set msgs" using sub by simp
      moreover have "message_id m = r_message_id row"
        by (simp add: m_def)
      moreover have "m_date m = date_of_row P (i + 0) row"
        by (simp add: m_def d_def)
      ultimately show ?thesis using 0 by auto
    next
      case (Suc k)
      then show ?thesis using that all by simp
    qed
    then show ?thesis using step msgs sub by auto
  next
    case False
    have step: "messages_loop P i (row # rows) acc = messages_loop P (Suc i) rows acc"
      using False by (simp add: messages_loop_Cons)
    from Cons.IH [OF rest, of "Suc i" acc]
    obtain msgs where msgs: "messages_loop P (Suc i) rows acc = Inr msgs"
      and sub: "set acc \<subseteq> set msgs"
      and all: "\<forall>j<length rows. survives P (rows ! j) \<longrightarrow>
        (\<exists>m\<in>set msgs. message_id m = r_message_id (rows ! j) \<and>
           m_date m = date_of_row P (Suc i + j) (rows ! j))"
      by blast
    have "\<exists>m\<in>set msgs. message_id m = r_message_id ((row # rows) ! j) \<and>
           m_date m = date_of_row P (i + j) ((row # rows) ! j)"
      if "j < length (row # rows)" "survives P ((row # rows) ! j)" for j
    proof (cases j)
      case 0
      then show ?thesis using that False by simp
    next
      case (Suc k)
      then show ?thesis using that all by simp
    qed
    then show ?thesis using step msgs sub by auto
  qed
qed

lemma kept_from_Cons:
  "kept_from P i (row # rows) =
     (if survives P row then row_message P i row # kept_from P (Suc i) rows
      else kept_from P (Suc i) rows)"
  by (simp add: kept_from_def)

lemma kept_from_ids:
  "map message_id (kept_from P i rows) = map r_message_id (filter (survives P) rows)"
  by (induction rows arbitrary: i) (simp_all add: kept_from_Cons, simp add: kept_from_def, simp add: row_message_def)

lemma messages_loop_kept:
  "list_all (converts P) rows \<Longrightarrow> messages_loop P i rows acc = Inr (acc @ kept_from P i rows)"
proof (induction rows arbitrary: i acc)
  case Nil
  show ?case by (simp add: kept_from_def)
next
  case (Cons row rows)
  have conv: "converts P row" and rest: "list_all (converts P) rows"
    using Cons.prems by simp_all
  have c: "convert_messages_timestamp P (clock P i) (r_date row) = Inr (date_of_row P i row)"
    using convert_total [OF conv, of "clock P i"] by (simp add: date_of_row_def)
  show ?case
    by (simp add: messages_loop_Cons kept_from_Cons c Cons.IH [OF rest] row_message_def)
qed

text \<open>
  C3.  Whatever the platform, the store, the connection and the chat ids, the list that
  \<open>get_messages_for_conversation\<close> returns is non-decreasing in the dates of its
  messages.  Without chat ids the list is empty, and so it is when no row of the query
  result survives the filter.  With a connection and chat ids, and no exception leaving
  the conversion of a timestamp, the list is the stable sort by date of the messages of
  the surviving rows: it holds one message for each surviving row, no other, whatever
  the order of the rows.
\<close>

theorem get_messages_for_conversation_sorted:
  "sorted (map m_date (get_messages_for_conversation P connection db chat_ids)) \<and>
   get_messages_for_conversation P connection db [] = [] \<and>
   (message_rows db chat_ids = Inr rows \<and> list_all (\<lambda>row. \<not> survives P row) rows \<longrightarrow>
      get_messages_for_conversation P connection db chat_ids = []) \<and>
   (connection \<and> chat_ids \<noteq> [] \<and> message_rows db chat_ids = Inr rows \<and>
    list_all (converts P) rows \<longrightarrow>
      get_messages_for_conversation P connection db chat_ids = sort_key m_date (kept_messages P rows) \<and>
      mset (get_messages_for_conversation P connection db chat_ids) = mset (kept_messages P rows) \<and>
      map message_id (kept_messages P rows) = map r_message_id (filter (survives P) rows))"
proof -
  have "sorted (map m_date (get_messages_for_conversation P connection db chat_ids))"
    by (simp add: get_messages_for_conversation_def split: sum.splits)
  moreover have "get_messages_for_conversation P connection db [] = []"
    by (simp add: get_messages_for_conversation_def)
  moreover have "get_messages_for_conversation P connection db chat_ids = []"
    if "message_rows db chat_ids = Inr rows" "list_all (\<lambda>row. \<not> survives P row) rows"
    using that by (simp add: get_messages_for_conversation_def messages_loop_none_survive)
  moreover have "get_messages_for_conversation P connection db chat_ids
        = sort_key m_date (kept_messages P rows) \<and>
      mset (get_messages_for_conversation P connection db chat_ids) = mset (kept_messages P rows) \<and>
      map message_id (kept_messages P rows) = map r_message_id (filter (survives P) rows)"
    if "connection" "chat_ids \<noteq> []" "message_rows db chat_ids = Inr rows" "list_all (converts P) rows"
  proof -
    have "get_messages_for_conversation P connection db chat_ids
        = sort_key m_date (kept_messages P rows)"
      using that messages_loop_kept [of P rows 0 "[]"]
      by (simp add: get_messages_for_conversation_def kept_messages_def)
    then show ?thesis
      by (simp add: kept_messages_def kept_from_ids)
  qed
  ultimately show ?thesis by blast
qed

text \<open>The sample rows, evaluated.\<close>

lemma strip_eval:
  "strip (str ''second one'') = str ''second one''"
  "strip (str '' first one'') = str ''first one''"
  "strip (str ''late'') = str ''late''"
  "strip loved_ok = loved_ok"
  by (simp_all add: strip_def isspace_def str_def loved_ok_def)

lemma junk_eval:
  "\<not> is_junk_message ascii_platform (Some (str ''second one''))"
  "\<not> is_junk_message ascii_platform (Some (str ''first one''))"
  "\<not> is_junk_message ascii_platform (Some (str ''late''))"
  "is_junk_message ascii_platform (Some loved_ok)"
  by (simp_all add: is_junk_message_def tapback_pattern_1_def tapback_pattern_2_def
      tapback_verbs_def attachment_tokens_def attachment_pattern_def match_literal_def
      quoted_tail_def at_end_def ascii_platform_def ascii_lower_def strip_def isspace_def
      str_def loved_ok_def)

lemma sample_nonempty:
  "str ''second one'' \<noteq> []" "str '' first one'' \<noteq> []" "str ''first one'' \<noteq> []"
  "str ''late'' \<noteq> []" "loved_ok \<noteq> []"
  by (simp_all add: str_def loved_ok_def)

lemma sample_extract:
  "extract_message_text P (Some (str ''second one'')) None = Some (str ''second one'')"
  "extract_message_text P (Some (str '' first one'')) None = Some (str ''first one'')"
  "extract_message_text P (Some (str ''late'')) None = Some (str ''late'')"
  "extract_message_text P (Some loved_ok) None = Some loved_ok"
  by (simp_all add: extract_message_text_def strip_eval sample_nonempty)

lemma text_row_sel:
  "r_message_id (text_row n s d me) = n" "r_text (text_row n s d me) = Some s"
  "r_attributedBody (text_row n s d me) = None" "r_date (text_row n s d me) = d"
  "r_is_from_me (text_row n s d me) = me" "r_handle_id (text_row n s d me) = Some (str ''A'')"
  "r_phone_number (text_row n s d me) = None"
  by (simp_all add: text_row_def)

lemma ascii_convert:
  "convert_messages_timestamp ascii_platform now t =
     (if 252423993599 < t div 1000000000 then Inr now else Inr (t div 1000 + 978307200000000))"
  by (simp add: convert_messages_timestamp_def ascii_platform_def)

lemma ascii_clock: "clock ascii_platform i = 1800000000000000"
  by (simp add: ascii_platform_def)

lemma sample_survives:
  "survives ascii_platform (text_row 1 (str ''second one'') 2000000000 0)"
  "survives ascii_platform (text_row 2 (str '' first one'') 1000000000 1)"
  "\<not> survives ascii_platform (text_row 3 loved_ok 1500000000 0)"
  "survives ascii_platform (text_row 4 (str ''late'') 1000000000000000000000 0)"
  by (simp_all add: survives_def text_row_sel sample_extract junk_eval sample_nonempty)

lemma sample_messages:
  "get_messages_for_conversation ascii_platform True sample_store [1, 3] =
     [\<lparr>message_id = 2, m_text = str ''first one'', m_date = 978307201000000, m_is_from_me = True,
        m_sender_id = Some (str ''A''), phone_number = None\<rparr>,
      \<lparr>message_id = 1, m_text = str ''second one'', m_date = 978307202000000, m_is_from_me = False,
        m_sender_id = Some (str ''A''), phone_number = None\<rparr>,
      \<lparr>message_id = 4, m_text = str ''late'', m_date = 1800000000000000, m_is_from_me = False,
        m_sender_id = Some (str ''A''), phone_number = None\<rparr>]"
proof -
  have "messages_loop ascii_platform 0 sample_rows [] =
     Inr [\<lparr>message_id = 1, m_text = str ''second one'', m_date = 978307202000000, m_is_from_me = False,
            m_sender_id = Some (str ''A''), phone_number = None\<rparr>,
          \<lparr>message_id = 2, m_text = str ''first one'', m_date = 978307201000000, m_is_from_me = True,
            m_sender_id = Some (str ''A''), phone_number = None\<rparr>,
          \<lparr>message_id = 4, m_text = str ''late'', m_date = 1800000000000000, m_is_from_me = False,
            m_sender_id = Some (str ''A''), phone_number = None\<rparr>]"
    by (simp add: sample_rows_def messages_loop_Cons sample_survives text_row_sel sample_extract
        ascii_convert ascii_clock)
  then show ?thesis
    by (simp add: get_messages_for_conversation_def sample_store_def)
qed

lemma sample_kept:
  "kept_messages ascii_platform sample_rows =
     [\<lparr>message_id = 1, m_text = str ''second one'', m_date = 978307202000000, m_is_from_me = False,
        m_sender_id = Some (str ''A''), phone_number = None\<rparr>,
      \<lparr>message_id = 2, m_text = str ''first one'', m_date = 978307201000000, m_is_from_me = True,
        m_sender_id = Some (str ''A''), phone_number = None\<rparr>,
      \<lparr>message_id = 4, m_text = str ''late'', m_date = 1800000000000000, m_is_from_me = False,
        m_sender_id = Some (str ''A''), phone_number = None\<rparr>]"
  by (simp add: kept_messages_def sample_rows_def kept_from_Cons sample_survives row_message_def
      text_row_sel sample_extract date_of_row_def)
     (simp add: ascii_platform_def kept_from_def)

theorem get_messages_for_conversation_sorted_witness:
  "map r_message_id sample_rows = [1, 2, 3, 4] \<and>
   message_rows sample_store [1, 3] = Inr sample_rows \<and>
   list_all (converts ascii_platform) sample_rows \<and>
   map message_id (kept_messages ascii_platform sample_rows) = [1, 2, 4] \<and>
   map m_date (kept_messages ascii_platform sample_rows)
     = [978307202000000, 978307201000000, 1800000000000000] \<and>
   get_messages_for_conversation ascii_platform True sample_store [1, 3]
     = sort_key m_date (kept_messages ascii_platform sample_rows) \<and>
   map message_id (get_messages_for_conversation ascii_platform True sample_store [1, 3]) = [2, 1, 4] \<and>
   sorted (map m_date (get_messages_for_conversation ascii_platform True sample_store [1, 3])) \<and>
   get_messages_for_conversation ascii_platform True sample_store [] = [] \<and>
   message_rows junk_store [1] = Inr [text_row 3 loved_ok 1500000000 0] \<and>
   list_all (\<lambda>row. \<not> survives ascii_platform row) [text_row 3 loved_ok 1500000000 0] \<and>
   get_messages_for_conversation ascii_platform True junk_store [1] = []"
proof -
  have rows: "message_rows junk_store [1] = Inr [text_row 3 loved_ok 1500000000 0]"
    by (simp add: junk_store_def)
  have junk: "list_all (\<lambda>row. \<not> survives ascii_platform row) [text_row 3 loved_ok 1500000000 0]"
    by (simp add: sample_survives)
  have ids: "map r_message_id sample_rows = [1, 2, 3, 4]"
    by (simp add: sample_rows_def text_row_sel)
  have srows: "message_rows sample_store [1, 3] = Inr sample_rows"
    by (simp add: sample_store_def)
  have conv: "list_all (converts ascii_platform) sample_rows"
    by (simp add: sample_rows_def converts_def text_row_sel ascii_platform_def)
  have ne: "[1, 3] \<noteq> ([] :: int list)"
    by simp
  have sorted_result: "get_messages_for_conversation ascii_platform True sample_store [1, 3]
     = sort_key m_date (kept_messages ascii_platform sample_rows)"
    using get_messages_for_conversation_sorted [of ascii_platform True sample_store "[1, 3]" sample_rows]
      srows conv ne by blast
  have empty: "get_messages_for_conversation ascii_platform True junk_store [1] = []"
    using get_messages_for_conversation_sorted [of ascii_platform True junk_store "[1]"
        "[text_row 3 loved_ok 1500000000 0]"] rows junk by blast
  have "sorted (map m_date (get_messages_for_conversation ascii_platform True sample_store [1, 3]))"
    "get_messages_for_conversation ascii_platform True sample_store [] = []"
    using get_messages_for_conversation_sorted [of ascii_platform True sample_store "[1, 3]" sample_rows]
    by blast+
  then show ?thesis
    using rows junk ids srows conv sorted_result empty
    by (simp add: sample_kept sample_messages)
qed

subsection \<open>Corrupt timestamps\<close>

text \<open>
  C10.  Where the conversion of a timestamp raises \<open>OSError\<close> or \<open>ValueError\<close>,
  \<open>convert_messages_timestamp\<close> returns the reading of the clock, not an error.  A
  surviving row with such a timestamp is in the result of
  \<open>get_messages_for_conversation\<close>, dated with the reading of the clock at that row,
  provided no row raises an exception that is not caught.
\<close>

theorem corrupt_timestamp_redated:
  "(fromtimestamp P t = Inl OSError \<or> fromtimestamp P t = Inl ValueError \<longrightarrow>
      convert_messages_timestamp P now t = Inr now) \<and>
   (connection \<and> chat_ids \<noteq> [] \<and> message_rows db chat_ids = Inr rows \<and>
    list_all (converts P) rows \<and> i < length rows \<and> survives P (rows ! i) \<and>
    raises_caught P (rows ! i) \<longrightarrow>
      (\<exists>m\<in>set (get_messages_for_conversation P connection db chat_ids).
         message_id m = r_message_id (rows ! i) \<and> m_date m = clock P i))"
proof -
  have "\<exists>m\<in>set (get_messages_for_conversation P connection db chat_ids).
         message_id m = r_message_id (rows ! i) \<and> m_date m = clock P i"
    if c: "connection" "chat_ids \<noteq> []" and r: "message_rows db chat_ids = Inr rows"
      and conv: "list_all (converts P) rows" and i: "i < length rows" "survives P (rows ! i)"
      and bad: "raises_caught P (rows ! i)"
  proof -
    from messages_loop_total [OF conv, of 0 "[]"]
    obtain msgs where msgs: "messages_loop P 0 rows [] = Inr msgs"
      and all: "\<forall>j<length rows. survives P (rows ! j) \<longrightarrow>
        (\<exists>m\<in>set msgs. message_id m = r_message_id (rows ! j) \<and>
           m_date m = date_of_row P (0 + j) (rows ! j))"
      by blast
    from all i obtain m where "m \<in> set msgs" "message_id m = r_message_id (rows ! i)"
      "m_date m = date_of_row P (0 + i) (rows ! i)"
      by blast
    moreover have "get_messages_for_conversation P connection db chat_ids = sort_key m_date msgs"
      using c r msgs by (simp add: get_messages_for_conversation_def)
    ultimately show ?thesis
      using bad by (auto simp add: raises_caught_def date_of_row_def)
  qed
  then show ?thesis
    using convert_caught [of P t now] by blast
qed

theorem corrupt_timestamp_redated_witness:
  "fromtimestamp ascii_platform 1000000000000000000000 = Inl ValueError \<and>
   convert_messages_timestamp ascii_platform 1800000000000000 1000000000000000000000
     = Inr 1800000000000000 \<and>
   message_rows sample_store [1, 3] = Inr sample_rows \<and>
   list_all (converts ascii_platform) sample_rows \<and>
   survives ascii_platform (sample_rows ! 3) \<and> raises_caught ascii_platform (sample_rows ! 3) \<and>
   (\<exists>m\<in>set (get_messages_for_conversation ascii_platform True sample_store [1, 3]).
      message_id m = r_message_id (sample_rows ! 3) \<and> m_date m = clock ascii_platform 3)"
proof -
  have bad: "fromtimestamp ascii_platform 1000000000000000000000 = Inl ValueError"
    by (simp add: ascii_platform_def)
  have rows: "message_rows sample_store [1, 3] = Inr sample_rows"
    by (simp add: sample_store_def)
  have conv: "list_all (converts ascii_platform) sample_rows"
    by (simp add: sample_rows_def converts_def text_row_sel ascii_platform_def)
  have surv: "survives ascii_platform (sample_rows ! 3)"
    by (simp add: sample_rows_def sample_survives)
  have caught: "raises_caught ascii_platform (sample_rows ! 3)"
    by (simp add: sample_rows_def raises_caught_def text_row_sel ascii_platform_def)
  have len: "3 < length sample_rows"
    by (simp add: sample_rows_def)
  show ?thesis
    using corrupt_timestamp_redated [of ascii_platform "1000000000000000000000" "1800000000000000"
        True "[1, 3]" sample_store sample_rows 3] bad rows conv surv caught len
    by simp
qed

subsection \<open>Text extraction\<close>

lemma blob_nonempty: "blob_a \<noteq> []" "blob_ab \<noteq> []" "blob_hi \<noteq> []"
  by (simp_all add: blob_a_def blob_ab_def blob_hi_def)

lemma blob_text:
  "strip (utf8_decode_ignore blob_a) = str ''a''"
  "strip (utf8_decode_ignore blob_ab) = str ''ab''"
  "strip (utf8_decode_ignore blob_hi) = str ''hi!'' @ [0x00]"
  by (simp_all add: blob_a_def blob_ab_def blob_hi_def strip_def isspace_def str_def)

lemma blob_fallback:
  "raw_utf8_fallback ascii_platform blob_a = None"
  "raw_utf8_fallback pyobjc_platform blob_ab = None"
  "raw_utf8_fallback ascii_platform blob_hi = Some (str ''hi!'')"
  unfolding raw_utf8_fallback_def blob_text
  by (simp_all add: pyobjc_platform_def ascii_platform_def str_def)

text \<open>
  C5, as the code has it.  Without the libraries, \<open>decode_attributed_body\<close> returns, for
  every non-empty blob, the UTF-8 decoding of the blob (invalid bytes dropped) with the
  white space at both ends removed: always a string, with no filter for printable
  characters and no minimum length.  It agrees with the raw fallback of the full chain
  exactly when that text is longer than 2 characters, all of them printable.
\<close>

theorem decode_attributed_body_without_pyobjc:
  "\<not> PYOBJC_AVAILABLE P \<and> data \<noteq> [] \<longrightarrow>
     decode_attributed_body P data = Some (strip (utf8_decode_ignore data)) \<and>
     (decode_attributed_body P data = raw_utf8_fallback P data \<longleftrightarrow>
        length (strip (utf8_decode_ignore data)) > 2 \<and>
        list_all (isprintable P) (strip (utf8_decode_ignore data)))"
proof (intro impI, elim conjE)
  assume no: "\<not> PYOBJC_AVAILABLE P" and ne: "data \<noteq> []"
  define s where "s = strip (utf8_decode_ignore data)"
  have d: "decode_attributed_body P data = Some s"
    using no ne by (simp add: decode_attributed_body_def s_def)
  have r: "raw_utf8_fallback P data =
      (if length (filter (isprintable P) s) > 2 then Some (filter (isprintable P) s) else None)"
    by (simp add: raw_utf8_fallback_def s_def Let_def)
  have f: "filter (isprintable P) s = s \<longleftrightarrow> list_all (isprintable P) s"
    by (simp add: filter_id_conv list_all_iff)
  have "Some s = raw_utf8_fallback P data \<longleftrightarrow> length s > 2 \<and> list_all (isprintable P) s"
    unfolding r using f by auto
  then show "decode_attributed_body P data = Some (strip (utf8_decode_ignore data)) \<and>
     (decode_attributed_body P data = raw_utf8_fallback P data \<longleftrightarrow>
        length (strip (utf8_decode_ignore data)) > 2 \<and>
        list_all (isprintable P) (strip (utf8_decode_ignore data)))"
    using d by (simp add: s_def)
qed

theorem decode_attributed_body_without_pyobjc_witness:
  "\<not> PYOBJC_AVAILABLE ascii_platform \<and> blob_hi \<noteq> [] \<and>
   decode_attributed_body ascii_platform blob_hi = Some (str ''hi!'' @ [0x00]) \<and>
   raw_utf8_fallback ascii_platform blob_hi = Some (str ''hi!'')"
proof -
  have no: "\<not> PYOBJC_AVAILABLE ascii_platform"
    by (simp add: ascii_platform_def)
  show ?thesis
    using decode_attributed_body_without_pyobjc [of ascii_platform blob_hi] no
    by (simp add: blob_nonempty blob_text blob_fallback)
qed

text \<open>
  C5, as the claim has it, fails at the blob that holds the one byte \<open>a\<close>: without the
  libraries the function returns that character, the raw fallback of the chain rejects it.
\<close>

theorem decode_without_pyobjc_counterexample:
  "\<not> PYOBJC_AVAILABLE ascii_platform \<and> blob_a \<noteq> [] \<and>
   decode_attributed_body ascii_platform blob_a = Some (str ''a'') \<and>
   raw_utf8_fallback ascii_platform blob_a = None"
proof -
  have "decode_attributed_body ascii_platform blob_a = Some (str ''a'')"
    unfolding decode_attributed_body_def blob_text
    by (simp add: ascii_platform_def blob_nonempty)
  then show ?thesis
    by (simp add: blob_fallback blob_nonempty) (simp add: ascii_platform_def)
qed



subsection \<open>Junk filter\<close>

lemma match_literal_append:
  assumes "match_literal P (a @ b) text"
  shows "match_literal P a text"
proof -
  from assms have len: "length a + length b \<le> length text"
    and all: "list_all2 (ignorecase P) (a @ b) (take (length a + length b) text)"
    by (simp_all add: match_literal_def)
  from all obtain us vs where uv: "take (length a + length b) text = us @ vs"
    and lu: "length us = length a" and au: "list_all2 (ignorecase P) a us"
    unfolding list_all2_append1 by blast
  have "take (length a) text = take (length a) (take (length a + length b) text)"
    by (simp add: min_def)
  also have "\<dots> = us"
    unfolding uv using lu by simp
  finally show ?thesis
    using au len by (simp add: match_literal_def)
qed

lemma tapback_pattern_2_imp_1: "tapback_pattern_2 P text \<Longrightarrow> tapback_pattern_1 P text"
  by (auto simp add: tapback_pattern_2_def tapback_pattern_1_def list_ex_iff
      dest: match_literal_append)

lemma attachment_pattern_iff:
  "attachment_pattern P token text \<longleftrightarrow>
     list_all2 (ignorecase P) token text \<or>
     (text \<noteq> [] \<and> last text = 0x0A \<and> list_all2 (ignorecase P) token (butlast text))"
proof
  assume a: "attachment_pattern P token text"
  then have le: "length token \<le> length text"
    and m: "list_all2 (ignorecase P) token (take (length token) text)"
    and e: "drop (length token) text = [] \<or> drop (length token) text = [0x0A]"
    by (simp_all add: attachment_pattern_def match_literal_def at_end_def)
  from e show "list_all2 (ignorecase P) token text \<or>
     (text \<noteq> [] \<and> last text = 0x0A \<and> list_all2 (ignorecase P) token (butlast text))"
  proof
    assume "drop (length token) text = []"
    then have "take (length token) text = text" by simp
    then show ?thesis using m by simp
  next
    assume d: "drop (length token) text = [0x0A]"
    have "text = take (length token) text @ drop (length token) text" by simp
    then have t: "text = take (length token) text @ [0x0A]" using d by simp
    then have "butlast text = take (length token) text" "last text = 0x0A" "text \<noteq> []"
      by (metis butlast_snoc, metis last_snoc, metis snoc_eq_iff_butlast)
    then show ?thesis using m by simp
  qed
next
  assume "list_all2 (ignorecase P) token text \<or>
     (text \<noteq> [] \<and> last text = 0x0A \<and> list_all2 (ignorecase P) token (butlast text))"
  then show "attachment_pattern P token text"
  proof
    assume a: "list_all2 (ignorecase P) token text"
    then have "length token = length text" by (rule list_all2_lengthD)
    then show ?thesis using a by (simp add: attachment_pattern_def match_literal_def at_end_def)
  next
    assume a: "text \<noteq> [] \<and> last text = 0x0A \<and> list_all2 (ignorecase P) token (butlast text)"
    then have len: "length token = length (butlast text)" by (auto dest: list_all2_lengthD)
    have t: "text = butlast text @ [0x0A]" using a by (metis append_butlast_last_id)
    have "take (length token) text = butlast text"
      by (subst t) (simp add: len)
    moreover have "drop (length token) text = [0x0A]"
      by (subst t) (simp add: len)
    ultimately show ?thesis
      using a len by (simp add: attachment_pattern_def match_literal_def at_end_def)
  qed
qed

lemma attachment_patterns_iff:
  "list_ex (\<lambda>token. attachment_pattern P token text) attachment_tokens \<longleftrightarrow> placeholder_line P text"
  unfolding placeholder_line_def bare_placeholder_def list_ex_iff attachment_pattern_iff
  by blast

lemma is_junk_message_iff:
  "is_junk_message P text \<longleftrightarrow>
     text = None \<or> the text = [] \<or> reaction_shorthand P (the text)
     \<or> placeholder_line P (the text) \<or> length (strip (the text)) < 2"
proof -
  have "list_ex (\<lambda>pattern. pattern P (the text)) [tapback_pattern_1, tapback_pattern_2]
      \<longleftrightarrow> reaction_shorthand P (the text)"
    using tapback_pattern_2_imp_1 [of P "the text"]
    by (auto simp add: reaction_shorthand_def tapback_pattern_1_def)
  then show ?thesis
    unfolding is_junk_message_def attachment_patterns_iff by auto
qed

lemma messages_loop_no_junk:
  "no_junk P acc \<Longrightarrow> messages_loop P i rows acc = Inr msgs \<Longrightarrow> no_junk P msgs"
proof (induction rows arbitrary: i acc)
  case Nil
  then show ?case by simp
next
  case (Cons row rows)
  show ?case
  proof (cases "survives P row")
    case True
    then obtain s where s: "extract_message_text P (r_text row) (r_attributedBody row) = Some s"
      and nj: "\<not> is_junk_message P (Some s)"
      by (auto simp add: survives_def Let_def)
    from Cons.prems(2) True obtain d where
      "messages_loop P (Suc i) rows
         (acc @ [\<lparr>message_id = r_message_id row, m_text = s, m_date = d,
            m_is_from_me = (r_is_from_me row \<noteq> 0), m_sender_id = r_handle_id row,
            phone_number = r_phone_number row\<rparr>]) = Inr msgs"
      by (auto simp add: messages_loop_Cons s split: sum.splits)
    moreover have "no_junk P (acc @ [\<lparr>message_id = r_message_id row, m_text = s, m_date = d,
            m_is_from_me = (r_is_from_me row \<noteq> 0), m_sender_id = r_handle_id row,
            phone_number = r_phone_number row\<rparr>])"
      using Cons.prems(1) nj by (simp add: no_junk_def)
    ultimately show ?thesis by (rule Cons.IH [rotated])
  next
    case False
    then have "messages_loop P (Suc i) rows acc = Inr msgs"
      using Cons.prems(2) by (simp add: messages_loop_Cons)
    with Cons.prems(1) show ?thesis by (rule Cons.IH)
  qed
qed

lemma get_messages_no_junk:
  "no_junk P (get_messages_for_conversation P connection db chat_ids)"
proof -
  have "no_junk P (sort_key m_date msgs)" if "messages_loop P 0 rows [] = Inr msgs" for rows msgs
  proof -
    have "no_junk P msgs"
      using messages_loop_no_junk [of P "[]" 0 rows msgs] that by (simp add: no_junk_def)
    then show ?thesis by (simp add: no_junk_def list_all_iff)
  qed
  then show ?thesis
    by (auto simp add: get_messages_for_conversation_def no_junk_def split: sum.splits)
qed

lemma loved_junk:
  assumes "\<forall>c. ignorecase P c c"
  shows "is_junk_message P (Some loved_ok)" "is_junk_message P (Some (str ''Loved''))"
proof -
  have "match_literal P (str ''Loved'') loved_ok" "match_literal P (str ''Loved'') (str ''Loved'')"
    using assms by (simp_all add: match_literal_def str_def loved_ok_def)
  then have "reaction_shorthand P loved_ok" "reaction_shorthand P (str ''Loved'')"
    by (simp_all add: reaction_shorthand_def tapback_verbs_def)
  then show "is_junk_message P (Some loved_ok)" "is_junk_message P (Some (str ''Loved''))"
    by (simp_all add: is_junk_message_iff)
qed

lemma before_space_of_loved_ok: "s @ 0x20 # rest = loved_ok \<Longrightarrow> s = str ''Loved''"
  by (auto simp add: loved_ok_def str_def append_eq_Cons_conv)

lemma join_not_loved_ok:
  assumes refl: "\<forall>c. ignorecase P c c"
    and nj: "list_all (\<lambda>s. \<not> is_junk_message P (Some s)) ms"
  shows "join (str '' '') ms \<noteq> loved_ok"
proof (cases ms)
  case Nil
  then show ?thesis by (simp add: loved_ok_def)
next
  case (Cons x xs)
  show ?thesis
  proof (cases xs)
    case Nil
    then show ?thesis
      using Cons nj loved_junk(1) [OF refl] by auto
  next
    case (Cons y ys)
    have "x \<noteq> str ''Loved''"
      using \<open>ms = x # xs\<close> nj loved_junk(2) [OF refl] by auto
    moreover have "join (str '' '') ms = x @ 0x20 # join (str '' '') (y # ys)"
      using  \<open>ms = x # xs\<close> Cons by (simp add: str_def)
    ultimately show ?thesis
      using before_space_of_loved_ok [of x "join (str '' '') (y # ys)"] by auto
  qed
qed

lemma turns_loop_text:
  "list_all (\<lambda>t. t_text t = join (str '' '') (messages t)) (turns_loop cur [] ms)"
  by (induction ms arbitrary: cur) (simp_all add: turns_loop_Cons)

lemma turns_no_junk:
  assumes "no_junk P msgs" and t: "t \<in> set (group_messages_into_turns msgs)"
  shows "list_all (\<lambda>s. \<not> is_junk_message P (Some s)) (messages t)"
    and "t_text t = join (str '' '') (messages t)"
proof -
  obtain m ms where msgs: "msgs = m # ms"
    using t by (cases msgs) (auto simp add: group_messages_into_turns_def)
  have g: "group_messages_into_turns msgs = turns_loop (new_turn m) [] ms"
    by (simp add: group_messages_into_turns_def msgs)
  have "concat (map messages (group_messages_into_turns msgs)) = map m_text msgs"
    unfolding g by (simp add: turns_loop_concat msgs)
  then have "set (messages t) \<subseteq> set (map m_text msgs)"
    using t by (metis Union_upper image_eqI list.set_map set_concat)
  then show "list_all (\<lambda>s. \<not> is_junk_message P (Some s)) (messages t)"
    using assms(1) by (auto simp add: no_junk_def list_all_iff)
  show "t_text t = join (str '' '') (messages t)"
    using turns_loop_text [of "new_turn m" ms] t by (simp add: g list_all_iff)
qed

lemma examples_components:
  assumes "(a, b) \<in> set (create_training_examples turns)"
  shows "(a = str ''[CONVERSATION_STARTER]'' \<or> a \<in> t_text ` set turns) \<and> b \<in> t_text ` set turns"
proof -
  from assms obtain i where i: "i < length turns" and p: "(a, b) = pair_at turns i"
    by (auto simp add: create_training_examples_def examples_loop_eq)
  have "turns ! i \<in> set turns" "0 < i \<Longrightarrow> turns ! (i - 1) \<in> set turns"
    using i by simp_all
  then show ?thesis
    using p by (auto simp add: pair_at_def split: if_splits)
qed

lemma conversation_examples_not_loved_ok:
  assumes refl: "\<forall>c. ignorecase P c c"
    and ab: "(a, b) \<in> set (conversation_examples P db chat_ids)"
  shows "a \<noteq> loved_ok \<and> b \<noteq> loved_ok"
proof -
  define msgs where "msgs = get_messages_for_conversation P True db chat_ids"
  have nj: "no_junk P msgs"
    unfolding msgs_def by (rule get_messages_no_junk)
  have ex: "(a, b) \<in> set (create_training_examples (group_messages_into_turns msgs))"
    using ab by (simp add: conversation_examples_def msgs_def Let_def split: if_splits)
  have nl: "t_text t \<noteq> loved_ok" if "t \<in> set (group_messages_into_turns msgs)" for t
    using turns_no_junk [OF nj that] join_not_loved_ok [OF refl] by simp
  have "str ''[CONVERSATION_STARTER]'' \<noteq> loved_ok"
    by (simp add: str_def loved_ok_def)
  then show ?thesis
    using examples_components [OF ex] nl by auto
qed

text \<open>
  C4, as the code has it.  \<open>is_junk_message\<close> holds if and only if the text is absent or
  empty, or starts (case-insensitively) with one of the six reaction verbs, or is one of
  the five placeholder tokens (case-insensitively), alone or followed by one line feed,
  or is shorter than 2 characters once trimmed.  Where every character matches itself
  under \<open>re.IGNORECASE\<close>, the text \<open>Loved "ok"\<close> is junk, and it is the text of no message
  that the merger returns, of no message of a turn, of no turn, and of neither side of
  a training pair.
\<close>

theorem is_junk_message_conditions:
  "(is_junk_message P text \<longleftrightarrow>
      text = None \<or> the text = [] \<or> reaction_shorthand P (the text)
      \<or> placeholder_line P (the text) \<or> length (strip (the text)) < 2) \<and>
   ((\<forall>c. ignorecase P c c) \<longrightarrow>
      is_junk_message P (Some loved_ok) \<and>
      list_all (\<lambda>m. not_loved_ok (m_text m))
        (get_messages_for_conversation P connection db chat_ids) \<and>
      list_all (\<lambda>t. list_all not_loved_ok (messages t) \<and> not_loved_ok (t_text t))
        (group_messages_into_turns (get_messages_for_conversation P connection db chat_ids)) \<and>
      list_all (\<lambda>(a, b). not_loved_ok a \<and> not_loved_ok b)
        (process_all_conversations P process_group_chats connected db))"
proof (intro conjI impI)
  show "is_junk_message P text \<longleftrightarrow>
      text = None \<or> the text = [] \<or> reaction_shorthand P (the text)
      \<or> placeholder_line P (the text) \<or> length (strip (the text)) < 2"
    by (rule is_junk_message_iff)
next
  assume refl: "\<forall>c. ignorecase P c c"
  show junk: "is_junk_message P (Some loved_ok)"
    by (rule loved_junk(1) [OF refl])
  define msgs where "msgs = get_messages_for_conversation P connection db chat_ids"
  have nj: "no_junk P msgs"
    unfolding msgs_def by (rule get_messages_no_junk)
  show "list_all (\<lambda>m. not_loved_ok (m_text m)) (get_messages_for_conversation P connection db chat_ids)"
    using nj junk by (auto simp add: msgs_def no_junk_def list_all_iff not_loved_ok_def)
  have "list_all not_loved_ok (messages t) \<and> not_loved_ok (t_text t)"
    if t: "t \<in> set (group_messages_into_turns msgs)" for t
  proof -
    have "list_all not_loved_ok (messages t)"
      using turns_no_junk(1) [OF nj t] junk by (auto simp add: list_all_iff not_loved_ok_def)
    moreover have "not_loved_ok (t_text t)"
      using turns_no_junk [OF nj t] join_not_loved_ok [OF refl] by (simp add: not_loved_ok_def)
    ultimately show ?thesis by simp
  qed
  then show "list_all (\<lambda>t. list_all not_loved_ok (messages t) \<and> not_loved_ok (t_text t))
        (group_messages_into_turns (get_messages_for_conversation P connection db chat_ids))"
    by (simp add: list_all_iff msgs_def)
  show "list_all (\<lambda>(a, b). not_loved_ok a \<and> not_loved_ok b)
        (process_all_conversations P process_group_chats connected db)"
    using conversation_examples_not_loved_ok [OF refl]
    by (auto simp add: process_all_conversations_def list_all_iff not_loved_ok_def Let_def)
qed

theorem is_junk_message_conditions_witness:
  "(\<forall>c. ignorecase ascii_platform c c) \<and>
   is_junk_message ascii_platform (Some loved_ok) \<and>
   map r_text sample_rows = [Some (str ''second one''), Some (str '' first one''), Some loved_ok,
     Some (str ''late'')] \<and>
   map m_text (get_messages_for_conversation ascii_platform True sample_store [1, 3])
     = [str ''first one'', str ''second one'', str ''late''] \<and>
   list_all (\<lambda>m. not_loved_ok (m_text m))
     (get_messages_for_conversation ascii_platform True sample_store [1, 3])"
proof -
  have refl: "\<forall>c. ignorecase ascii_platform c c"
    by (simp add: ascii_platform_def)
  have rows: "map r_text sample_rows = [Some (str ''second one''), Some (str '' first one''),
      Some loved_ok, Some (str ''late'')]"
    by (simp add: sample_rows_def text_row_sel)
  have texts: "map m_text (get_messages_for_conversation ascii_platform True sample_store [1, 3])
     = [str ''first one'', str ''second one'', str ''late'']"
    by (simp add: sample_messages)
  have "is_junk_message ascii_platform (Some loved_ok) \<and>
      list_all (\<lambda>m. not_loved_ok (m_text m))
        (get_messages_for_conversation ascii_platform True sample_store [1, 3])"
    using is_junk_message_conditions [of ascii_platform "Some loved_ok" True sample_store "[1, 3]"
        False True, THEN conjunct2, rule_format, OF refl [rule_format]]
    by simp
  then show ?thesis
    using refl rows texts by simp
qed

text \<open>
  C4, as the claim has it, fails at the text \<open>[IMAGE]\<close> followed by a line feed: the text
  is junk for the code (\<open>$\<close> matches before a line feed that ends the text), and none of
  the four conditions of the claim holds of it.
\<close>

theorem is_junk_message_counterexample:
  "is_junk_message ascii_platform (Some image_line) \<and> \<not> junk_as_specified ascii_platform (Some image_line)"
proof -
  have "is_junk_message ascii_platform (Some image_line)"
    by (simp add: is_junk_message_def attachment_tokens_def attachment_pattern_def
        match_literal_def at_end_def ascii_platform_def ascii_lower_def str_def image_line_def)
  moreover have "\<not> junk_as_specified ascii_platform (Some image_line)"
    by (simp add: junk_as_specified_def reaction_shorthand_def bare_placeholder_def
        tapback_verbs_def attachment_tokens_def match_literal_def ascii_platform_def
        ascii_lower_def strip_def isspace_def str_def image_line_def)
  ultimately show ?thesis by simp
qed

subsection \<open>Conversation grouping\<close>

lemma participants_key_mset:
  "mset (split 0x2C a) = mset (split 0x2C b) \<Longrightarrow> participants_key a = participants_key b"
  unfolding participants_key_def
  by (rule properties_for_sort) simp_all

lemma keys_ensure_key: "distinct (map fst d) \<Longrightarrow> distinct (map fst (ensure_key k d))"
  by (auto simp add: ensure_key_def)

lemma keys_append_chat: "map fst (append_chat k c d) = map fst d"
  by (induction d) (auto simp add: append_chat_def)

lemma map_of_append_chat:
  "map_of (append_chat k c d) k' =
     (if k' = k then map_option (\<lambda>ids. ids @ [c]) (map_of d k) else map_of d k')"
  by (induction d) (auto simp add: append_chat_def)

lemma map_of_ensure_key:
  "map_of (ensure_key k d) k' =
     (if k' = k \<and> map_of d k = None then Some [] else map_of d k')"
proof (cases "k \<in> fst ` set d")
  case True
  then have "map_of d k \<noteq> None"
    by (simp add: map_of_eq_None_iff)
  then show ?thesis
    using True by (simp add: ensure_key_def)
next
  case False
  then have "map_of d k = None"
    by (simp add: map_of_eq_None_iff)
  then show ?thesis
    using False by (auto simp add: ensure_key_def map_add_def split: option.splits)
qed

lemma map_of_step:
  "map_of (append_chat k c (ensure_key k d)) k' =
     (if k' = k then Some ((case map_of d k of None \<Rightarrow> [] | Some ids \<Rightarrow> ids) @ [c])
      else map_of d k')"
  by (simp add: map_of_append_chat map_of_ensure_key split: option.splits)

lemma conversations_loop_keys:
  "distinct (map fst d) \<Longrightarrow> distinct (map fst (conversations_loop rows d))"
proof (induction rows arbitrary: d)
  case Nil
  then show ?case by simp
next
  case (Cons r rows)
  obtain c ps where r: "r = (c, ps)" by (cases r)
  show ?case
    using Cons.prems
    by (auto simp add: r Let_def keys_append_chat keys_ensure_key intro!: Cons.IH)
qed

lemma conversations_loop_map_of:
  "map_of (conversations_loop rows d) k =
     (let ids = (case map_of d k of None \<Rightarrow> [] | Some ids \<Rightarrow> ids) @ chats_with_key k rows
      in if map_of d k = None \<and> chats_with_key k rows = [] then None else Some ids)"
proof (induction rows arbitrary: d)
  case Nil
  show ?case by (auto simp add: chats_with_key_def Let_def split: option.splits)
next
  case (Cons r rows)
  obtain c ps where r: "r = (c, ps)" by (cases r)
  show ?case
  proof (cases "ps \<noteq> None \<and> the ps \<noteq> []")
    case True
    define p where "p = participants_key (the ps)"
    have step: "conversations_loop (r # rows) d = conversations_loop rows (append_chat p c (ensure_key p d))"
      using True by (simp add: r p_def Let_def)
    have cw: "chats_with_key k (r # rows) = (if p = k then c # chats_with_key k rows else chats_with_key k rows)"
      using True by (simp add: chats_with_key_def r p_def)
    show ?thesis
      unfolding step Cons.IH map_of_step cw
      by (auto simp add: Let_def split: option.splits)
  next
    case False
    have step: "conversations_loop (r # rows) d = conversations_loop rows d"
      using False by (auto simp add: r)
    have cw: "chats_with_key k (r # rows) = chats_with_key k rows"
      using False by (auto simp add: chats_with_key_def r)
    show ?thesis
      unfolding step Cons.IH cw by (rule refl)
  qed
qed

lemma get_all_conversations_map_of:
  "chat_rows db = Inr rows \<Longrightarrow>
   map_of (get_all_conversations True db) k =
     (if chats_with_key k rows = [] then None else Some (chats_with_key k rows))"
  by (simp add: get_all_conversations_def conversations_loop_map_of)

text \<open>
  The order of the handles has no part in the key.  The key is sorted and holds the
  handles of the comma-joined string; two strings that list the same handles, in any
  order, have the same key.  The keys of the returned mapping are distinct, and two chats
  of the store whose strings list the same handles are in the same bucket of it.
\<close>

lemma participants_key_permutation:
  "sorted (participants_key a) \<and>
   mset (participants_key a) = mset (split 0x2C a) \<and>
   (mset (split 0x2C a) = mset (split 0x2C b) \<longrightarrow> participants_key a = participants_key b) \<and>
   distinct (map fst (get_all_conversations connection db)) \<and>
   (chat_rows db = Inr rows \<and> (c1, Some a) \<in> set rows \<and> (c2, Some b) \<in> set rows \<and>
    a \<noteq> [] \<and> b \<noteq> [] \<and> mset (split 0x2C a) = mset (split 0x2C b) \<longrightarrow>
      (\<exists>ids. map_of (get_all_conversations True db) (participants_key a) = Some ids \<and>
         c1 \<in> set ids \<and> c2 \<in> set ids))"
proof (intro conjI impI)
  show "sorted (participants_key a)"
    by (simp add: participants_key_def)
  show "mset (participants_key a) = mset (split 0x2C a)"
    by (simp add: participants_key_def)
  show "participants_key a = participants_key b" if "mset (split 0x2C a) = mset (split 0x2C b)"
    using that by (rule participants_key_mset)
  show "distinct (map fst (get_all_conversations connection db))"
    by (simp add: get_all_conversations_def conversations_loop_keys split: sum.splits)
next
  assume h: "chat_rows db = Inr rows \<and> (c1, Some a) \<in> set rows \<and> (c2, Some b) \<in> set rows \<and>
    a \<noteq> [] \<and> b \<noteq> [] \<and> mset (split 0x2C a) = mset (split 0x2C b)"
  then have k: "participants_key b = participants_key a"
    using participants_key_mset [of a b] by simp
  have in_bucket: "c \<in> set (chats_with_key (participants_key a) rows)"
    if "(c, Some s) \<in> set rows" "s \<noteq> []" "participants_key s = participants_key a" for c s
  proof -
    have "(c, Some s) \<in> set (filter (\<lambda>(chat_id, ps). ps \<noteq> None \<and> the ps \<noteq> []
        \<and> participants_key (the ps) = participants_key a) rows)"
      using that by simp
    then have "fst (c, Some s) \<in> set (chats_with_key (participants_key a) rows)"
      unfolding chats_with_key_def set_map by (rule imageI)
    then show ?thesis by simp
  qed
  have 1: "c1 \<in> set (chats_with_key (participants_key a) rows)"
    using h by (intro in_bucket [of c1 a]) simp_all
  have 2: "c2 \<in> set (chats_with_key (participants_key a) rows)"
    using h k by (intro in_bucket [of c2 b]) simp_all
  have "chats_with_key (participants_key a) rows \<noteq> []"
    using 1 by auto
  moreover have "chat_rows db = Inr rows"
    using h by simp
  ultimately have "map_of (get_all_conversations True db) (participants_key a)
      = Some (chats_with_key (participants_key a) rows)"
    by (simp add: get_all_conversations_map_of)
  then show "\<exists>ids. map_of (get_all_conversations True db) (participants_key a) = Some ids \<and>
         c1 \<in> set ids \<and> c2 \<in> set ids"
    using 1 2 by simp
qed

lemma sample_keys:
  "participants_key (str ''A'') = [str ''A'']"
  "participants_key (str ''B,A'') = [str ''A'', str ''B'']"
  "participants_key (str ''A,B'') = [str ''A'', str ''B'']"
  "participants_key (str ''A,A'') = [str ''A'', str ''A'']"
  by (simp_all add: participants_key_def str_def)

lemma sample_conversations:
  "get_all_conversations True sample_store = [([str ''A''], [1, 3]), ([str ''A'', str ''B''], [2])]"
proof -
  have ne: "str ''A'' \<noteq> []" "str ''B,A'' \<noteq> []" "[str ''A'', str ''B''] \<noteq> [str ''A'']"
    by (simp_all add: str_def)
  show ?thesis
    by (simp add: get_all_conversations_def sample_store_def sample_keys ne ensure_key_def
        append_chat_def)
qed

text \<open>Scenario D on the sample store: the chats 1 and 3 of the participant \<open>A\<close> share a bucket.\<close>

lemma sample_store_buckets:
  "mset (split 0x2C (str ''B,A'')) = mset (split 0x2C (str ''A,B'')) \<and>
   participants_key (str ''B,A'') = participants_key (str ''A,B'') \<and>
   participants_key (str ''B,A'') = [str ''A'', str ''B''] \<and>
   chat_rows sample_store = Inr [(1, Some (str ''A'')), (2, Some (str ''B,A'')), (3, Some (str ''A''))] \<and>
   (\<exists>ids. map_of (get_all_conversations True sample_store) (participants_key (str ''A'')) = Some ids \<and>
      1 \<in> set ids \<and> 3 \<in> set ids) \<and>
   map_of (get_all_conversations True sample_store) [str ''A''] = Some [1, 3]"
proof -
  have m: "mset (split 0x2C (str ''B,A'')) = mset (split 0x2C (str ''A,B''))"
    by (simp add: str_def)
  have r: "chat_rows sample_store = Inr [(1, Some (str ''A'')), (2, Some (str ''B,A'')), (3, Some (str ''A''))]"
    by (simp add: sample_store_def)
  have ne: "str ''A'' \<noteq> []"
    by (simp add: str_def)
  have "participants_key (str ''B,A'') = participants_key (str ''A,B'')"
    using participants_key_permutation [of "str ''B,A''" "str ''A,B''"] m by blast
  moreover have "\<exists>ids. map_of (get_all_conversations True sample_store) (participants_key (str ''A'')) = Some ids \<and>
      1 \<in> set ids \<and> 3 \<in> set ids"
  proof -
    have "(1, Some (str ''A'')) \<in> set [(1, Some (str ''A'')), (2, Some (str ''B,A'')), (3, Some (str ''A''))]"
      "(3, Some (str ''A'')) \<in> set [(1, Some (str ''A'')), (2, Some (str ''B,A'')), (3, Some (str ''A''))]"
      by simp_all
    then show ?thesis
      using participants_key_permutation [of "str ''A''" "str ''A''" True sample_store
        "[(1, Some (str ''A'')), (2, Some (str ''B,A'')), (3, Some (str ''A''))]" 1 3] r ne
      by blast
  qed
  ultimately show ?thesis
    using m r by (simp add: sample_keys sample_conversations)
qed

text \<open>
  C6.  The key is to stand for the set of the participants of a chat (the grouping is
  documented as one by the set of participants, and the filter for 1-on-1 chats reads a
  key of length 1 as one other person).  The code sorts the handles and does not remove
  repetitions: at a store with the chat 1 of \<open>A\<close> and the chat 2 whose string is \<open>A,A\<close>,
  the two strings name the same set of participants and get different keys, the chats
  land in two buckets, and with \<open>PROCESS_GROUP_CHATS\<close> off the chat 2 is dropped
  as a group chat.
\<close>

theorem duplicate_handle_splits_conversation:
  "chat_rows dup_store = Inr [(1, Some (str ''A'')), (2, Some (str ''A,A''))] \<and>
   set (split 0x2C (str ''A,A'')) = set (split 0x2C (str ''A'')) \<and>
   participants_key (str ''A'') = [str ''A''] \<and>
   participants_key (str ''A,A'') = [str ''A'', str ''A''] \<and>
   get_all_conversations True dup_store = [([str ''A''], [1]), ([str ''A'', str ''A''], [2])] \<and>
   filter_conversations PROCESS_GROUP_CHATS (get_all_conversations True dup_store)
     = [([str ''A''], [1])]"
proof -
  have ne: "str ''A'' \<noteq> []" "str ''A,A'' \<noteq> []" "[str ''A'', str ''A''] \<noteq> [str ''A'']"
    by (simp_all add: str_def)
  have g: "get_all_conversations True dup_store
      = [([str ''A''], [1]), ([str ''A'', str ''A''], [2])]"
    by (simp add: get_all_conversations_def dup_store_def sample_keys ne ensure_key_def
        append_chat_def Let_def)
  have "set (split 0x2C (str ''A,A'')) = set (split 0x2C (str ''A''))"
    by (simp add: str_def)
  then show ?thesis
    by (simp add: g sample_keys filter_conversations_def PROCESS_GROUP_CHATS_def)
       (simp add: dup_store_def)
qed

subsection \<open>The filter for 1-on-1 chats\<close>

text \<open>
  C7, as the code has it.  \<open>get_all_conversations\<close> does not read the flag; it is
  \<open>process_all_conversations\<close> that, with the flag off, keeps of the returned mapping the
  buckets whose key has exactly one handle, and makes its examples from these alone.
  With the flag on, nothing is dropped.
\<close>

theorem filter_conversations_one_on_one:
  "(\<not> process_group_chats \<longrightarrow>
      filter_conversations process_group_chats (get_all_conversations connection db)
        = filter one_on_one (get_all_conversations connection db) \<and>
      list_all one_on_one (filter_conversations process_group_chats (get_all_conversations connection db)) \<and>
      process_all_conversations P process_group_chats True db
        = concat (map (\<lambda>(participants, chat_ids). conversation_examples P db chat_ids)
            (filter one_on_one (get_all_conversations True db)))) \<and>
   (process_group_chats \<longrightarrow>
      filter_conversations process_group_chats (get_all_conversations connection db)
        = get_all_conversations connection db)"
proof -
  have "(\<lambda>(p, cids). length p = 1) = one_on_one"
    by (auto simp add: one_on_one_def fun_eq_iff)
  then have f: "filter_conversations False cs = filter one_on_one cs" for cs
    by (simp add: filter_conversations_def)
  have "list_all one_on_one (filter one_on_one cs)" for cs
    by (simp add: list_all_iff)
  then show ?thesis
    using f by (simp add: process_all_conversations_def) (simp add: filter_conversations_def)
qed

theorem filter_conversations_one_on_one_witness:
  "\<not> PROCESS_GROUP_CHATS \<and>
   filter_conversations PROCESS_GROUP_CHATS (get_all_conversations True sample_store)
     = [([str ''A''], [1, 3])] \<and>
   list_all one_on_one (filter_conversations PROCESS_GROUP_CHATS (get_all_conversations True sample_store))"
proof -
  have no: "\<not> PROCESS_GROUP_CHATS"
    by (simp add: PROCESS_GROUP_CHATS_def)
  have "filter one_on_one (get_all_conversations True sample_store) = [([str ''A''], [1, 3])]"
    by (simp add: sample_conversations one_on_one_def)
  then show ?thesis
    using filter_conversations_one_on_one [of PROCESS_GROUP_CHATS True sample_store] no
    by (simp add: one_on_one_def)
qed

text \<open>
  C7, as the claim has it, fails at the sample store: with the flag off, the mapping that
  \<open>get_all_conversations\<close> returns has the bucket of the two handles \<open>A\<close> and \<open>B\<close>.
\<close>

theorem get_all_conversations_counterexample:
  "\<not> PROCESS_GROUP_CHATS \<and>
   get_all_conversations True sample_store = [([str ''A''], [1, 3]), ([str ''A'', str ''B''], [2])] \<and>
   \<not> list_all one_on_one (get_all_conversations True sample_store)"
  by (simp add: sample_conversations one_on_one_def PROCESS_GROUP_CHATS_def)

end
